theory Spec2Isabelle
  imports Complex_Main "HOL-Library.Sublist"
begin

section \<open>Values of the JavaScript runtime\<close>

text \<open>
  The program is a Next.js client page (\<^verbatim>\<open>src/app/page.tsx\<close>) and one route handler
  (\<^verbatim>\<open>src/app/api/process-document/route.ts\<close>). Strings are lists of characters whose
  codes are read as code points below 256; numbers that are not integers are rationals
  (the literal \<^verbatim>\<open>0.8\<close> is \<open>4/5\<close>), so floating-point rounding is not modelled.
\<close>

datatype jsval =
    JUndefined
  | JNull
  | JBool bool
  | JNum rat
  | JStr string
  | JArr "jsval list"
  | JObj "(string \<times> jsval) list"

datatype js_error = TypeError | SyntaxError | NetworkFailure | ThrownError jsval

text \<open>
  Reading a property \<^verbatim>\<open>v.k\<close>: a TypeError on \<^verbatim>\<open>undefined\<close> and \<^verbatim>\<open>null\<close>, the
  stored value on an object that has the key, \<^verbatim>\<open>undefined\<close> otherwise. The keys the
  program reads (\<^verbatim>\<open>text\<close>, \<^verbatim>\<open>error\<close>, \<^verbatim>\<open>Decision\<close>, \<^verbatim>\<open>query\<close>,
  \<^verbatim>\<open>documents\<close>) are not properties of the prototypes of primitives or arrays.
\<close>

fun get_prop :: "jsval \<Rightarrow> string \<Rightarrow> js_error + jsval" where
  "get_prop JUndefined k = Inl TypeError"
| "get_prop JNull k = Inl TypeError"
| "get_prop (JObj kvs) k = (case map_of kvs k of None \<Rightarrow> Inr JUndefined | Some v \<Rightarrow> Inr v)"
| "get_prop v k = Inr JUndefined"

text \<open>Truthiness, as \<^verbatim>\<open>!v\<close> and \<^verbatim>\<open>a || b\<close> use it.\<close>

fun truthy :: "jsval \<Rightarrow> bool" where
  "truthy JUndefined = False"
| "truthy JNull = False"
| "truthy (JBool b) = b"
| "truthy (JNum n) = (n \<noteq> 0)"
| "truthy (JStr s) = (s \<noteq> [])"
| "truthy (JArr xs) = True"
| "truthy (JObj kvs) = True"

definition js_or :: "jsval \<Rightarrow> jsval \<Rightarrow> jsval" where
  "js_or a b = (if truthy a then a else b)"

text \<open>
  The functions of the platform that the program calls and that are not part of the
  repository are parameters: \<^verbatim>\<open>JSON.parse\<close> (\<open>None\<close> when it throws), the conversion
  of a number to a string, \<^verbatim>\<open>Number.prototype.toString(36)\<close>, \<^verbatim>\<open>toFixed(1)\<close> and
  \<^verbatim>\<open>Date.prototype.toISOString\<close>. \<^verbatim>\<open>formatFileSize\<close> is a function of the page built
  on floating-point logarithms; it is a parameter too.
\<close>

record runtime =
  JSON_parse :: "string \<Rightarrow> jsval option"
  num_to_string :: "rat \<Rightarrow> string"
  to_radix36 :: "rat \<Rightarrow> string"
  toFixed1 :: "rat \<Rightarrow> string"
  toISOString :: "nat \<Rightarrow> string"
  formatFileSize :: "nat \<Rightarrow> string"

definition newline :: char where
  "newline = CHR 0x0A"

text \<open>Decimal digits of a non-negative integer, as \<^verbatim>\<open>`${Date.now()}`\<close> prints it.\<close>

definition digit_char :: "nat \<Rightarrow> char" where
  "digit_char n = ''0123456789'' ! n"

function dec :: "nat \<Rightarrow> string" where
  "dec n = (if n < 10 then [digit_char n] else dec (n div 10) @ [digit_char (n mod 10)])"
  by pat_completeness auto
termination
  by (relation "measure id") auto

declare dec.simps [simp del]

text \<open>\<^verbatim>\<open>Array.prototype.join\<close> on an array of strings.\<close>

fun js_join :: "string \<Rightarrow> string list \<Rightarrow> string" where
  "js_join sep [] = []"
| "js_join sep [x] = x"
| "js_join sep (x # y # ys) = x @ sep @ js_join sep (y # ys)"

text \<open>
  String conversion, as a template literal \<^verbatim>\<open>`${v}`\<close> applies it to a value that came
  out of \<^verbatim>\<open>JSON.parse\<close>. An object is converted by its \<^verbatim>\<open>toString\<close>: the inherited one
  gives \<^verbatim>\<open>[object Object]\<close>; an own property of that name is not callable, and then the
  inherited \<^verbatim>\<open>valueOf\<close> returns the object itself, so the conversion throws a TypeError.
  An array is converted by \<^verbatim>\<open>join\<close>: its elements are converted in order, \<^verbatim>\<open>null\<close> and
  \<^verbatim>\<open>undefined\<close> to the empty string, and joined by commas.
\<close>

fun js_to_string :: "runtime \<Rightarrow> jsval \<Rightarrow> js_error + string"
  and js_elements_to_strings :: "runtime \<Rightarrow> jsval list \<Rightarrow> js_error + string list" where
  "js_to_string rt JUndefined = Inr ''undefined''"
| "js_to_string rt JNull = Inr ''null''"
| "js_to_string rt (JBool b) = Inr (if b then ''true'' else ''false'')"
| "js_to_string rt (JNum n) = Inr (num_to_string rt n)"
| "js_to_string rt (JStr s) = Inr s"
| "js_to_string rt (JArr xs) =
     (case js_elements_to_strings rt xs of
        Inl e \<Rightarrow> Inl e
      | Inr ss \<Rightarrow> Inr (js_join '','' ss))"
| "js_to_string rt (JObj kvs) =
     (if map_of kvs ''toString'' = None then Inr ''[object Object]'' else Inl TypeError)"
| "js_elements_to_strings rt [] = Inr []"
| "js_elements_to_strings rt (x # xs) =
     (case (if x = JUndefined \<or> x = JNull then Inr [] else js_to_string rt x) of
        Inl e \<Rightarrow> Inl e
      | Inr s \<Rightarrow>
          (case js_elements_to_strings rt xs of
             Inl e \<Rightarrow> Inl e
           | Inr ss \<Rightarrow> Inr (s # ss)))"

text \<open>\<^verbatim>\<open>String.prototype.substr(start, length)\<close> for non-negative arguments.\<close>

definition substr :: "string \<Rightarrow> nat \<Rightarrow> nat \<Rightarrow> string" where
  "substr s start len = take len (drop start s)"

text \<open>
  \<^verbatim>\<open>String.prototype.trim\<close>: white space and line terminators are removed at both
  ends. Below code point 256 these are TAB, LF, VT, FF, CR, SPACE and NO-BREAK SPACE.
\<close>

definition is_white :: "char \<Rightarrow> bool" where
  "is_white c = (c \<in> set [CHR 0x09, CHR 0x0A, CHR 0x0B, CHR 0x0C, CHR 0x0D, CHR 0x20, CHR 0xA0])"

definition js_trim :: "string \<Rightarrow> string" where
  "js_trim s = rev (dropWhile is_white (rev (dropWhile is_white s)))"

section \<open>Double-precision arithmetic\<close>

text \<open>
  A JavaScript number is an IEEE 754 double. A finite double is a rational, and the
  product or quotient of two doubles is the exact result rounded to the nearest double,
  ties to even. \<open>binade x\<close> is the exponent of the leading bit of a positive \<open>x\<close>, not
  below the exponent -1022 of the smallest normal double; a double of that binade is a
  multiple of \<open>2 powi (binade x - 52)\<close>. Magnitudes of \<open>2 ^ 1024\<close> and more, which round
  to infinity, are outside the model; the program multiplies a draw below 1 by 50 or 20
  and divides a difference of clock readings by 1000.
\<close>

definition round_half_even :: "rat \<Rightarrow> int" where
  "round_half_even q =
     (let f = \<lfloor>q\<rfloor>; d = q - of_int f
      in if d < 1 / 2 then f
         else if 1 / 2 < d then f + 1
         else if even f then f else f + 1)"

function binade_up :: "nat \<Rightarrow> rat \<Rightarrow> int" where
  "binade_up k x = (if x < 2 \<or> 1023 \<le> k then int k else binade_up (Suc k) (x / 2))"
  by pat_completeness auto
termination
  by (relation "measure (\<lambda>(k, x). 1023 - k)") auto

declare binade_up.simps [simp del]

function binade_down :: "nat \<Rightarrow> rat \<Rightarrow> int" where
  "binade_down k x = (if 1 \<le> x \<or> 1022 \<le> k then - int k else binade_down (Suc k) (2 * x))"
  by pat_completeness auto
termination
  by (relation "measure (\<lambda>(k, x). 1022 - k)") auto

declare binade_down.simps [simp del]

definition binade :: "rat \<Rightarrow> int" where
  "binade x = (if 1 \<le> x then binade_up 0 x else binade_down 0 x)"

definition round_double :: "rat \<Rightarrow> rat" where
  "round_double x =
     (if x = 0 then 0
      else (let a = \<bar>x\<bar>; u = 2 powi (binade a - 52)
            in sgn x * of_int (round_half_even (a / u)) * u))"

definition is_double :: "rat \<Rightarrow> bool" where
  "is_double x = (round_double x = x \<and> \<bar>x\<bar> < 2 ^ 1024)"

definition double_mul :: "rat \<Rightarrow> rat \<Rightarrow> rat" where
  "double_mul x y = round_double (x * y)"

definition double_div :: "rat \<Rightarrow> rat \<Rightarrow> rat" where
  "double_div x y = round_double (x / y)"

section \<open>The client page: data\<close>

datatype Tab = Tab_upload | Tab_query | Tab_results | Tab_viewer | Tab_history

datatype doc_status = Stored | Processing

record StoredDocument =
  d_id :: string
  d_name :: string
  d_content :: string
  chunks :: int
  clauses :: int
  d_size :: string
  processTime :: string
  status :: doc_status
  uploadDate :: string
  d_type :: string

text \<open>
  The \<^verbatim>\<open>result\<close> of a query record is declared with an interface, but it holds whatever
  value the response handling produced; the model keeps the value.
\<close>

record QueryResult =
  q_id :: string
  query :: string
  timestamp :: string
  result :: jsval
  processingTime :: int

record app_state =
  activeTab :: Tab
  storedDocuments :: "StoredDocument list"
  queryHistory :: "QueryResult list"
  currentQuery :: string
  isProcessing :: bool
  selectedDocument :: "StoredDocument option"
  currentResult :: "QueryResult option"
  uploadProgress :: "string \<rightharpoonup> nat"

datatype toast_variant = Default_variant | Destructive

record toast_msg =
  title :: string
  description :: string
  variant :: toast_variant

record http_request =
  req_url :: string
  req_method :: string
  req_headers :: "(string \<times> string) list"
  req_body :: jsval

text \<open>
  A value of the local key-value store is the output of \<^verbatim>\<open>JSON.stringify\<close> on one of the
  two lists; the model keeps the list that was serialised, which is what \<^verbatim>\<open>JSON.parse\<close>
  gives back for it (a result that is \<^verbatim>\<open>undefined\<close> is left out of the text and reads as
  \<^verbatim>\<open>undefined\<close> again).
\<close>

datatype serialized = Ser_documents "StoredDocument list" | Ser_history "QueryResult list"

text \<open>
  The world of the page: the React state, the local store, the toasts shown and the
  requests sent so far. A state setter replaces its list by a fresh array, so the effect
  that depends on the list runs after the next render; \<open>docs_changed\<close> and
  \<open>history_changed\<close> record that a setter ran and the effect is pending.
\<close>

record world =
  ui :: app_state
  localStorage :: "string \<rightharpoonup> serialized"
  toasts :: "toast_msg list"
  requests :: "http_request list"
  docs_changed :: bool
  history_changed :: bool

definition toast :: "toast_msg \<Rightarrow> world \<Rightarrow> world" where
  "toast t w = w\<lparr>toasts := toasts w @ [t]\<rparr>"

definition setStoredDocuments ::
  "(StoredDocument list \<Rightarrow> StoredDocument list) \<Rightarrow> world \<Rightarrow> world" where
  "setStoredDocuments f w =
     w\<lparr>ui := (ui w)\<lparr>storedDocuments := f (storedDocuments (ui w))\<rparr>, docs_changed := True\<rparr>"

definition setQueryHistory ::
  "(QueryResult list \<Rightarrow> QueryResult list) \<Rightarrow> world \<Rightarrow> world" where
  "setQueryHistory f w =
     w\<lparr>ui := (ui w)\<lparr>queryHistory := f (queryHistory (ui w))\<rparr>, history_changed := True\<rparr>"

definition setCurrentResult :: "QueryResult option \<Rightarrow> world \<Rightarrow> world" where
  "setCurrentResult r w = w\<lparr>ui := (ui w)\<lparr>currentResult := r\<rparr>\<rparr>"

definition setActiveTab :: "Tab \<Rightarrow> world \<Rightarrow> world" where
  "setActiveTab t w = w\<lparr>ui := (ui w)\<lparr>activeTab := t\<rparr>\<rparr>"

definition setCurrentQuery :: "string \<Rightarrow> world \<Rightarrow> world" where
  "setCurrentQuery q w = w\<lparr>ui := (ui w)\<lparr>currentQuery := q\<rparr>\<rparr>"

definition setIsProcessing :: "bool \<Rightarrow> world \<Rightarrow> world" where
  "setIsProcessing b w = w\<lparr>ui := (ui w)\<lparr>isProcessing := b\<rparr>\<rparr>"

definition removeItem :: "string \<Rightarrow> world \<Rightarrow> world" where
  "removeItem k w = w\<lparr>localStorage := (localStorage w)(k := None)\<rparr>"

definition setItem :: "string \<Rightarrow> serialized \<Rightarrow> world \<Rightarrow> world" where
  "setItem k v w = w\<lparr>localStorage := (localStorage w)(k \<mapsto> v)\<rparr>"

text \<open>
  The two persistence effects (page.tsx lines 78 to 84), as they run after a render that
  completes: each writes its list when the list was replaced.
\<close>

definition run_effects :: "world \<Rightarrow> world" where
  "run_effects w =
     (let w1 = (if docs_changed w
                then setItem ''llm-documents'' (Ser_documents (storedDocuments (ui w))) w
                else w);
          w2 = (if history_changed w1
                then setItem ''llm-history'' (Ser_history (queryHistory (ui w1))) w1
                else w1)
      in w2\<lparr>docs_changed := False, history_changed := False\<rparr>)"

section \<open>The client page: removing and clearing\<close>

definition removeDocument :: "string \<Rightarrow> world \<Rightarrow> world" where
  "removeDocument ident w =
     toast \<lparr>title = ''Document removed'',
            description = ''Document has been removed from storage'',
            variant = Default_variant\<rparr>
       (setStoredDocuments (filter (\<lambda>doc. d_id doc \<noteq> ident)) w)"

definition clearAllData :: "world \<Rightarrow> world" where
  "clearAllData w =
     toast \<lparr>title = ''All data cleared'',
            description = ''All documents and history have been removed'',
            variant = Default_variant\<rparr>
       (removeItem ''llm-history''
         (removeItem ''llm-documents''
           (setCurrentResult None
             (setQueryHistory (\<lambda>prev. [])
               (setStoredDocuments (\<lambda>prev. []) w)))))"


section \<open>The client page: document ingestion\<close>

text \<open>
  A \<^verbatim>\<open>File\<close> as the page uses it. \<open>f_text\<close> is what \<^verbatim>\<open>FileReader.readAsText\<close>
  delivers to \<^verbatim>\<open>onload\<close>; it is \<open>None\<close> when the read fails, in which case
  \<^verbatim>\<open>onload\<close> never fires and the promise of \<^verbatim>\<open>extractTextFromFile\<close> never settles.
\<close>

record File =
  f_name :: string
  f_size :: nat
  f_type :: string
  f_text :: "string option"

text \<open>
  What one call of \<^verbatim>\<open>processDocument\<close> reads from the clock and the random number
  generator, in the order of the source: \<^verbatim>\<open>Date.now()\<close> at line 99, \<^verbatim>\<open>Date.now()\<close>
  and \<^verbatim>\<open>Math.random()\<close> at line 102, \<^verbatim>\<open>Date.now()\<close> at line 112, \<^verbatim>\<open>Math.random()\<close>
  at lines 115 and 116, \<^verbatim>\<open>new Date()\<close> at line 127. A draw of \<^verbatim>\<open>Math.random()\<close> is a
  double that is at least 0 and less than 1.
\<close>

record upload_clock =
  u_start :: nat
  u_id_now :: nat
  u_id_random :: rat
  u_done :: nat
  u_chunks_random :: rat
  u_clauses_random :: rat
  u_date :: nat

definition extractTextFromFile :: "File \<Rightarrow> string option" where
  "extractTextFromFile file =
     (case f_text file of
        None \<Rightarrow> None
      | Some content \<Rightarrow>
          Some (if content \<noteq> [] then content
                else ''['' @ f_type file @ ''] '' @ f_name file @ '' - Content extracted''))"

definition setUploadProgress ::
  "((string \<rightharpoonup> nat) \<Rightarrow> (string \<rightharpoonup> nat)) \<Rightarrow> world \<Rightarrow> world" where
  "setUploadProgress f w = w\<lparr>ui := (ui w)\<lparr>uploadProgress := f (uploadProgress (ui w))\<rparr>\<rparr>"

text \<open>
  \<open>None\<close> as the first component: the call never returns. The progress map is written
  as if the calls of one batch ran one after the other.
\<close>

definition processDocument ::
  "runtime \<Rightarrow> upload_clock \<Rightarrow> File \<Rightarrow> world \<Rightarrow> StoredDocument option \<times> world" where
  "processDocument rt e file w =
     (let startTime = u_start e;
          fileId = ''doc_'' @ dec (u_id_now e) @ ''_'' @ substr (to_radix36 rt (u_id_random e)) 2 9;
          w1 = setUploadProgress (\<lambda>prev. prev(fileId \<mapsto> 0)) w;
          w2 = fold (\<lambda>i. setUploadProgress (\<lambda>prev. prev(fileId \<mapsto> i)))
                 (map (\<lambda>k. 10 * k) [0..<11]) w1
      in case extractTextFromFile file of
           None \<Rightarrow> (None, w2)
         | Some content \<Rightarrow>
             (let processTime = toFixed1 rt (double_div (of_nat (u_done e) - of_nat startTime) 1000);
                  chunks = \<lfloor>double_mul (u_chunks_random e) 50\<rfloor> + 20;
                  clauses = \<lfloor>double_mul (u_clauses_random e) 20\<rfloor> + 5;
                  document = \<lparr>d_id = fileId,
                              d_name = f_name file,
                              d_content = content,
                              chunks = chunks,
                              clauses = clauses,
                              d_size = formatFileSize rt (f_size file),
                              processTime = processTime @ ''s'',
                              status = Stored,
                              uploadDate = toISOString rt (u_date e),
                              d_type = (if f_type file \<noteq> [] then f_type file else ''text/plain'')\<rparr>
              in (Some document, setUploadProgress (\<lambda>prev. prev(fileId := None)) w2)))"

text \<open>\<^verbatim>\<open>Promise.all(files.map(file => processDocument(file)))\<close>: every call is made.\<close>

fun process_all ::
  "runtime \<Rightarrow> (File \<times> upload_clock) list \<Rightarrow> world \<Rightarrow> StoredDocument option list \<times> world" where
  "process_all rt [] w = ([], w)"
| "process_all rt ((file, e) # rest) w =
     (let (r, w1) = processDocument rt e file w;
          (rs, w2) = process_all rt rest w1
      in (r # rs, w2))"

text \<open>
  \<^verbatim>\<open>handleFileUpload\<close>. When a call never returns, \<^verbatim>\<open>Promise.all\<close> never settles and
  nothing after the \<^verbatim>\<open>await\<close> runs. No call rejects, so the \<^verbatim>\<open>catch\<close> branch is not
  reached.
\<close>

definition handleFileUpload :: "runtime \<Rightarrow> (File \<times> upload_clock) list \<Rightarrow> world \<Rightarrow> world" where
  "handleFileUpload rt files w =
     (let (rs, w1) = process_all rt files w
      in if list_all (\<lambda>r. r \<noteq> None) rs
         then toast \<lparr>title = ''Documents uploaded successfully'',
                      description = dec (length files) @ '' document(s) processed and stored'',
                      variant = Default_variant\<rparr>
                (setStoredDocuments (\<lambda>prev. prev @ map the rs) w1)
         else w1)"

section \<open>The client page: query dispatch\<close>

text \<open>
  The outcome of \<^verbatim>\<open>fetch\<close> followed by \<^verbatim>\<open>response.json()\<close>: the promise of
  \<^verbatim>\<open>fetch\<close> rejects, or there is a response with a status and a body that parses to a
  value (\<open>None\<close> when \<^verbatim>\<open>response.json()\<close> rejects).
\<close>

datatype fetch_outcome = Rejected | Response nat "jsval option"

text \<open>
  What one call of \<^verbatim>\<open>processQuery\<close> gets from its environment: the network, and the
  clock at lines 184, 221, 223 and 225.
\<close>

record query_clock =
  fetch :: "http_request \<Rightarrow> fetch_outcome"
  q_start :: nat
  q_id_now :: nat
  q_stamp :: nat
  q_end :: nat

definition response_ok :: "nat \<Rightarrow> bool" where
  "response_ok st = (200 \<le> st \<and> st \<le> 299)"

definition documentsContent :: "StoredDocument list \<Rightarrow> string" where
  "documentsContent docs =
     js_join [newline, newline]
       (map (\<lambda>doc. ''Document: '' @ d_name doc @ [newline] @ d_content doc) docs)"

definition query_request :: "string \<Rightarrow> StoredDocument list \<Rightarrow> http_request" where
  "query_request q docs =
     \<lparr>req_url = ''/api/process-document'',
      req_method = ''POST'',
      req_headers = [(''Content-Type'', ''application/json'')],
      req_body = JObj [(''query'', JStr q), (''documents'', JStr (documentsContent docs))]\<rparr>"

definition fallback_result :: "jsval \<Rightarrow> jsval" where
  "fallback_result data_text =
     JObj [(''Decision'', JStr ''Processed''),
           (''Justification'', js_or data_text (JStr ''Query processed successfully'')),
           (''Clause_References'', JArr []),
           (''Confidence'', JNum (8 / 10))]"

text \<open>
  Lines 205 to 218: the inner \<^verbatim>\<open>try\<close> reads \<^verbatim>\<open>data.text\<close> and parses it when it is a
  string; its \<^verbatim>\<open>catch\<close> builds the fallback object, reading \<^verbatim>\<open>data.text\<close> again.
\<close>

definition parse_result :: "runtime \<Rightarrow> jsval \<Rightarrow> js_error + jsval" where
  "parse_result rt data =
     (case (case get_prop data ''text'' of
              Inl e \<Rightarrow> Inl e
            | Inr t \<Rightarrow>
                (case t of
                   JStr s \<Rightarrow> (case JSON_parse rt s of None \<Rightarrow> Inl SyntaxError | Some v \<Rightarrow> Inr v)
                 | _ \<Rightarrow> Inr t)) of
        Inr v \<Rightarrow> Inr v
      | Inl _ \<Rightarrow>
          (case get_prop data ''text'' of
             Inl e \<Rightarrow> Inl e
           | Inr t \<Rightarrow> Inr (fallback_result t)))"

text \<open>Lines 220 to 226: the record of one answered query.\<close>

definition queryResult_of :: "runtime \<Rightarrow> query_clock \<Rightarrow> string \<Rightarrow> jsval \<Rightarrow> QueryResult" where
  "queryResult_of rt env q processedResult =
     \<lparr>q_id = ''query_'' @ dec (q_id_now env),
      query = q,
      timestamp = toISOString rt (q_stamp env),
      result = processedResult,
      processingTime = int (q_end env) - int (q_start env)\<rparr>"

text \<open>
  The body of the outer \<^verbatim>\<open>try\<close> (lines 187 to 239): the world when it ends, and the
  exception when it ends by one. State setters that ran before a throw keep their effect;
  the template literal of the success toast (line 235) reads \<^verbatim>\<open>processedResult.Decision\<close>
  and converts it to a string, and both can throw.
\<close>

definition try_body ::
  "runtime \<Rightarrow> query_clock \<Rightarrow> string \<Rightarrow> StoredDocument list \<Rightarrow> world \<Rightarrow> world \<times> js_error option" where
  "try_body rt env q docs w =
     (let req = query_request q docs;
          w1 = w\<lparr>requests := requests w @ [req]\<rparr>
      in case fetch env req of
           Rejected \<Rightarrow> (w1, Some NetworkFailure)
         | Response st parsed \<Rightarrow>
             (case parsed of
                None \<Rightarrow> (w1, Some SyntaxError)
              | Some data \<Rightarrow>
                  if response_ok st then
                    (case parse_result rt data of
                       Inl e \<Rightarrow> (w1, Some e)
                     | Inr processedResult \<Rightarrow>
                         (let queryResult = queryResult_of rt env q processedResult;
                              w2 = setCurrentQuery []
                                     (setActiveTab Tab_results
                                       (setCurrentResult (Some queryResult)
                                         (setQueryHistory (\<lambda>prev. queryResult # prev) w1)))
                          in case get_prop processedResult ''Decision'' of
                               Inl e \<Rightarrow> (w2, Some e)
                             | Inr d \<Rightarrow>
                                 (case js_to_string rt d of
                                    Inl e \<Rightarrow> (w2, Some e)
                                  | Inr ds \<Rightarrow>
                                      (toast \<lparr>title = ''Query processed successfully'',
                                              description = ''Decision: '' @ ds,
                                              variant = Default_variant\<rparr> w2, None))))
                  else
                    (case get_prop data ''error'' of
                       Inl e \<Rightarrow> (w1, Some e)
                     | Inr er \<Rightarrow> (w1, Some (ThrownError (js_or er (JStr ''Processing failed'')))))))"

definition processQuery :: "runtime \<Rightarrow> query_clock \<Rightarrow> world \<Rightarrow> world" where
  "processQuery rt env w =
     (let q = currentQuery (ui w); docs = storedDocuments (ui w)
      in if js_trim q = [] \<or> docs = [] then
           toast \<lparr>title = ''Invalid query'',
                  description = ''Please enter a query and ensure documents are uploaded'',
                  variant = Destructive\<rparr> w
         else
           (let (w1, thrown) = try_body rt env q docs (setIsProcessing True w);
                w2 = (case thrown of
                        None \<Rightarrow> w1
                      | Some e \<Rightarrow>
                          toast \<lparr>title = ''Processing failed'',
                                 description = ''Failed to process the query. Please try again.'',
                                 variant = Destructive\<rparr> w1)
            in setIsProcessing False w2))"

section \<open>The client page: mounting and the other events\<close>

text \<open>The state of the page when it is first rendered (page.tsx lines 51 to 62).\<close>

definition initial_ui :: app_state where
  "initial_ui =
     \<lparr>activeTab = Tab_upload, storedDocuments = [], queryHistory = [],
      currentQuery = [], isProcessing = False, selectedDocument = None,
      currentResult = None, uploadProgress = Map.empty\<rparr>"


definition setSelectedDocument :: "StoredDocument option \<Rightarrow> world \<Rightarrow> world" where
  "setSelectedDocument d w = w\<lparr>ui := (ui w)\<lparr>selectedDocument := d\<rparr>\<rparr>"



section \<open>The route handler\<close>

text \<open>
  The argument of \<^verbatim>\<open>generateText\<close>, and the two things the handler takes from its
  module: the constant \<^verbatim>\<open>systemPrompt\<close> (route.ts lines 5 to 53; its text has characters
  beyond code point 255 and no property below depends on it) and the hosted model call,
  \<open>None\<close> when it throws.
\<close>

record gen_request =
  g_model :: string
  g_system :: string
  g_prompt :: string
  g_maxTokens :: nat

record server_env =
  systemPrompt :: string
  generateText :: "gen_request \<Rightarrow> string option"

record http_response =
  status_code :: nat
  json_body :: jsval

record endpoint_result =
  response :: http_response
  invocations :: "gen_request list"

text \<open>The template literal of lines 66 to 73; converting a field to a string can throw.\<close>

definition build_prompt :: "runtime \<Rightarrow> jsval \<Rightarrow> jsval \<Rightarrow> js_error + string" where
  "build_prompt rt q d =
     (case js_to_string rt q of
        Inl e \<Rightarrow> Inl e
      | Inr qs \<Rightarrow>
          (case js_to_string rt d of
             Inl e \<Rightarrow> Inl e
           | Inr ds \<Rightarrow>
               Inr ([newline] @ ''User Query: '' @ qs @ [newline, newline]
                    @ ''Available Documents:'' @ [newline] @ ds @ [newline, newline]
                    @ ''Please analyze the query against the provided documents and return a structured JSON response following the specified format. Focus on insurance policy analysis, coverage decisions, and clause-based reasoning.''
                    @ [newline])))"

text \<open>
  \<^verbatim>\<open>POST\<close>: the argument is the result of \<^verbatim>\<open>req.json()\<close>, \<open>None\<close> when it rejects. Every
  exception inside the \<^verbatim>\<open>try\<close> ends in the status 500 answer.
\<close>

definition POST :: "runtime \<Rightarrow> server_env \<Rightarrow> jsval option \<Rightarrow> endpoint_result" where
  "POST rt senv req_json =
     (let failed = \<lparr>status_code = 500,
                     json_body = JObj [(''error'', JStr ''Failed to process document. Please try again.'')]\<rparr>
      in case (case req_json of
                 None \<Rightarrow> Inl SyntaxError
               | Some b \<Rightarrow>
                   (case get_prop b ''query'' of
                      Inl e \<Rightarrow> Inl e
                    | Inr q \<Rightarrow>
                        (case get_prop b ''documents'' of
                           Inl e \<Rightarrow> Inl e
                         | Inr d \<Rightarrow> Inr (q, d)))) of
           Inl e \<Rightarrow> \<lparr>response = failed, invocations = []\<rparr>
         | Inr (q, d) \<Rightarrow>
             if \<not> truthy q \<or> \<not> truthy d then
               \<lparr>response = \<lparr>status_code = 400,
                             json_body = JObj [(''error'', JStr ''Query and documents are required'')]\<rparr>,
                invocations = []\<rparr>
             else
               (case build_prompt rt q d of
                  Inl e \<Rightarrow> \<lparr>response = failed, invocations = []\<rparr>
                | Inr prompt \<Rightarrow>
                    (let g = \<lparr>g_model = ''grok-3'',
                              g_system = systemPrompt senv,
                              g_prompt = prompt,
                              g_maxTokens = 2000\<rparr>
                     in case generateText senv g of
                          None \<Rightarrow> \<lparr>response = failed, invocations = [g]\<rparr>
                        | Some text \<Rightarrow>
                            \<lparr>response = \<lparr>status_code = 200,
                                          json_body = JObj [(''text'', JStr text)]\<rparr>,
                             invocations = [g]\<rparr>)))"

text \<open>
  The page talking to this route: the request body reaches \<^verbatim>\<open>req.json()\<close> as the value
  that was serialised, and the answer's body reaches \<^verbatim>\<open>response.json()\<close> likewise.
\<close>

definition served_by :: "runtime \<Rightarrow> server_env \<Rightarrow> http_request \<Rightarrow> fetch_outcome" where
  "served_by rt senv req =
     (let r = response (POST rt senv (Some (req_body req)))
      in Response (status_code r) (Some (json_body r)))"

section \<open>Concrete values\<close>

text \<open>The page in its initial state, with an empty local store.\<close>

definition initial_world :: world where
  "initial_world =
     \<lparr>ui = initial_ui, localStorage = Map.empty, toasts = [], requests = [],
      docs_changed = False, history_changed = False\<rparr>"

text \<open>
  The values below are used in the examples only. The functions of \<open>sample_runtime\<close>
  agree with the platform's on the arguments the examples apply them to:
  \<open>approved_text\<close> parses to \<open>approved_value\<close>, the other texts used are not JSON,
  one half is \<^verbatim>\<open>0.i\<close> in base 36, and so on.
\<close>

definition approved_text :: string where
  \<open>approved_text =
     ''{"Decision":"Approved","Justification":"Covered","Clause_References":[],"Confidence":0.9}''\<close>

definition approved_value :: jsval where
  "approved_value =
     JObj [(''Decision'', JStr ''Approved''), (''Justification'', JStr ''Covered''),
           (''Clause_References'', JArr []), (''Confidence'', JNum (9 / 10))]"

definition sample_runtime :: runtime where
  "sample_runtime =
     \<lparr>JSON_parse = (\<lambda>s. if s = approved_text then Some approved_value else None),
      num_to_string = (\<lambda>n. if n = 5 then ''5'' else ''0''),
      to_radix36 = (\<lambda>r. if r = 1 / 2 then ''0.i'' else ''0''),
      toFixed1 = (\<lambda>r. if r = double_div 1100 1000 then ''1.1'' else ''0.0''),
      toISOString = (\<lambda>t. if t = 1000 then ''1970-01-01T00:00:01.000Z''
                         else ''1970-01-01T00:00:00.000Z''),
      formatFileSize = (\<lambda>n. if n = 35 then ''35 Bytes'' else ''0 Bytes'')\<rparr>"

definition sample_file :: File where
  "sample_file =
     \<lparr>f_name = ''policy.txt'', f_size = 35, f_type = ''text/plain'',
      f_text = Some ''Knee surgery covered after 2 years.''\<rparr>"

definition sample_upload :: upload_clock where
  "sample_upload =
     \<lparr>u_start = 0, u_id_now = 0, u_id_random = 1 / 2, u_done = 1100,
      u_chunks_random = 1 / 2, u_clauses_random = 1 / 4, u_date = 1000\<rparr>"

text \<open>The doubles that the literals \<^verbatim>\<open>0.24\<close> and \<^verbatim>\<open>0.7\<close> denote.\<close>

definition draw_024 :: rat where
  "draw_024 = round_double (24 / 100)"

definition draw_07 :: rat where
  "draw_07 = round_double (7 / 10)"

definition sample_document :: StoredDocument where
  "sample_document =
     \<lparr>d_id = ''doc_0_i'', d_name = ''policy.txt'',
      d_content = ''Knee surgery covered after 2 years.'',
      chunks = 45, clauses = 10, d_size = ''35 Bytes'', processTime = ''1.1s'',
      status = Stored, uploadDate = ''1970-01-01T00:00:01.000Z'', d_type = ''text/plain''\<rparr>"

definition sample_record :: QueryResult where
  "sample_record =
     \<lparr>q_id = ''query_0'', query = ''Is dental care covered?'',
      timestamp = ''1970-01-01T00:00:00.000Z'',
      result = JObj [(''Decision'', JStr ''Rejected'')],
      processingTime = 900\<rparr>"

definition sample_query :: string where
  "sample_query = ''46-year-old male, knee surgery, 3-month policy''"

definition sample_world :: world where
  "sample_world =
     initial_world\<lparr>ui := (ui initial_world)\<lparr>storedDocuments := [sample_document],
                                               queryHistory := [sample_record],
                                               currentQuery := sample_query\<rparr>\<rparr>"

definition sample_server :: "string option \<Rightarrow> server_env" where
  "sample_server answer =
     \<lparr>systemPrompt = ''You are a powerful Document Reasoning Engine'',
      generateText = (\<lambda>g. answer)\<rparr>"

definition sample_clock :: "(http_request \<Rightarrow> fetch_outcome) \<Rightarrow> query_clock" where
  "sample_clock f = \<lparr>fetch = f, q_start = 0, q_id_now = 1000, q_stamp = 1000, q_end = 1000\<rparr>"


section \<open>Auxiliary facts on double-precision arithmetic\<close>

lemma round_half_even_bounds:
  "of_int (round_half_even q) \<le> q + 1 / 2" "q - 1 / 2 \<le> of_int (round_half_even q)"
proof -
  define f where "f = \<lfloor>q\<rfloor>"
  have a: "of_int f \<le> q" and b: "q < of_int f + 1" unfolding f_def by linarith+
  consider (low) "q - of_int f < 1 / 2" | (high) "1 / 2 < q - of_int f" | (tie) "q - of_int f = 1 / 2"
    by linarith
  then have "of_int (round_half_even q) \<le> q + 1 / 2 \<and> q - 1 / 2 \<le> of_int (round_half_even q)"
  proof cases
    case low
    then have "round_half_even q = f" by (simp add: round_half_even_def Let_def f_def)
    then show ?thesis using a low by simp
  next
    case high
    then have "round_half_even q = f + 1" by (simp add: round_half_even_def Let_def f_def)
    then show ?thesis using b high by simp
  next
    case tie
    then have "round_half_even q = f \<or> round_half_even q = f + 1"
      by (simp add: round_half_even_def Let_def f_def)
    then show ?thesis using tie by auto
  qed
  then show "of_int (round_half_even q) \<le> q + 1 / 2" "q - 1 / 2 \<le> of_int (round_half_even q)"
    by simp_all
qed

lemma round_half_even_nonneg: "0 \<le> q \<Longrightarrow> 0 \<le> round_half_even q"
proof -
  assume "0 \<le> q"
  then have "0 \<le> \<lfloor>q\<rfloor>" by simp
  then show ?thesis by (auto simp add: round_half_even_def Let_def)
qed

lemma binade_up_le: "x < 2 ^ Suc j \<Longrightarrow> binade_up k x \<le> int (k + j)"
proof (induction j arbitrary: k x)
  case 0
  then show ?case by (subst binade_up.simps) simp
next
  case (Suc j)
  show ?case
  proof (cases "x < 2 \<or> 1023 \<le> k")
    case True
    then show ?thesis by (subst binade_up.simps) auto
  next
    case False
    have "x / 2 < 2 ^ Suc j" using Suc.prems by simp
    then have "binade_up (Suc k) (x / 2) \<le> int (Suc k + j)" by (rule Suc.IH)
    then show ?thesis using False by (subst binade_up.simps) simp
  qed
qed

lemma binade_down_le: "binade_down k x \<le> 0"
proof (induction k x rule: binade_down.induct)
  case (1 k x)
  show ?case
  proof (cases "1 \<le> x \<or> 1022 \<le> k")
    case True
    then show ?thesis by (subst binade_down.simps) auto
  next
    case False
    then show ?thesis using "1.IH" by (subst binade_down.simps) simp
  qed
qed

lemma binade_le: "x < 2 ^ Suc j \<Longrightarrow> binade x \<le> int j"
  using binade_up_le[of x j 0] binade_down_le[of 0 x] by (simp add: binade_def)

lemma binade_half: "1 / 2 \<le> x \<Longrightarrow> x < 1 \<Longrightarrow> binade x = - 1"
proof -
  assume a: "1 / 2 \<le> x" and b: "x < 1"
  have "binade x = binade_down 0 x" using b by (simp add: binade_def)
  also have "\<dots> = binade_down (Suc 0) (2 * x)" using b by (subst binade_down.simps) simp
  also have "\<dots> = - 1" using a by (subst binade_down.simps) simp
  finally show ?thesis .
qed

lemma round_double_nonneg: "0 \<le> x \<Longrightarrow> 0 \<le> round_double x"
proof (cases "x = 0")
  case True
  then show ?thesis by (simp add: round_double_def)
next
  case False
  assume "0 \<le> x"
  then have p: "0 < x" using False by simp
  have u: "(0::rat) < 2 powi (binade x - 52)" by simp
  have "0 \<le> round_half_even (x / 2 powi (binade x - 52))"
    using p u by (intro round_half_even_nonneg) simp
  then show ?thesis using p False by (simp add: round_double_def Let_def)
qed

lemma round_double_upper:
  assumes "0 < x" and "x < 2 ^ Suc j"
  shows "round_double x \<le> x + 2 powi (int j - 53)"
proof -
  let ?u = "(2::rat) powi (binade x - 52)"
  have u: "0 < ?u" by simp
  have r: "round_double x = of_int (round_half_even (x / ?u)) * ?u"
    using assms(1) by (simp add: round_double_def Let_def)
  have "of_int (round_half_even (x / ?u)) \<le> x / ?u + 1 / 2" by (rule round_half_even_bounds)
  then have "of_int (round_half_even (x / ?u)) * ?u \<le> (x / ?u + 1 / 2) * ?u"
    using u by (simp only: mult_le_cancel_right_pos)
  also have "\<dots> = x + ?u / 2" using u by (simp add: field_simps)
  also have "?u / 2 = 2 powi (binade x - 53)"
    by (simp add: power_int_diff)
  finally have "round_double x \<le> x + 2 powi (binade x - 53)" using r by simp
  moreover have "(2::rat) powi (binade x - 53) \<le> 2 powi (int j - 53)"
    using binade_le[OF assms(2)] by (intro power_int_increasing) simp_all
  ultimately show ?thesis by linarith
qed

lemma two_powi_diff: "(2::rat) powi (int j - 53) = 2 ^ j / 2 ^ 53"
  by (simp add: power_int_diff)

lemma double_below_one:
  assumes "is_double r" and "r < 1"
  shows "r \<le> 1 - 1 / 2 ^ 53"
proof (cases "1 / 2 \<le> r")
  case False
  have "(1::rat) / 2 \<le> 1 - 1 / 2 ^ 53" by simp
  then show ?thesis using False by linarith
next
  case True
  then have p: "0 < r" by simp
  have b: "binade r = - 1" using True assms(2) by (rule binade_half)
  define P :: rat where "P = 2 ^ 53"
  have P: "0 < P" by (simp add: P_def)
  have "binade r - 52 = int 0 - 53" using b by simp
  then have "(2::rat) powi (binade r - 52) = 2 powi (int 0 - 53)" by (rule arg_cong)
  also have "\<dots> = 2 ^ 0 / 2 ^ 53" by (rule two_powi_diff)
  finally have u: "(2::rat) powi (binade r - 52) = 1 / P" by (simp add: P_def)
  define n where "n = round_half_even (r / (1 / P))"
  have "round_double r = of_int n * (1 / P)"
    using p by (simp add: round_double_def Let_def u n_def)
  then have e: "r = of_int n / P"
    using assms(1) by (simp add: is_double_def)
  have "of_int n / P < 1" using e assms(2) by simp
  then have "of_int n < P" using P by (simp add: pos_divide_less_eq)
  then have "(of_int n :: rat) < 2 ^ 53" by (simp add: P_def)
  then have "n < 2 ^ 53" by (metis of_int_less_iff of_int_numeral of_int_power)
  then have "n \<le> 2 ^ 53 - 1" by simp
  then have "(of_int n :: rat) \<le> of_int (2 ^ 53 - 1)" by (simp only: of_int_le_iff)
  then have "(of_int n :: rat) \<le> P - 1" by (simp add: P_def)
  then have "of_int n / P \<le> (P - 1) / P" using P by (simp add: divide_le_cancel)
  also have "(P - 1) / P = 1 - 1 / P" using P by (simp add: field_simps)
  finally show ?thesis using e by (simp add: P_def)
qed

lemma scaled_draw_below:
  assumes d: "is_double r" and lo: "0 \<le> r" and hi: "r < 1"
    and n: "(0::rat) < c" and cj: "c < 2 ^ Suc j" and half: "(2::rat) ^ j < c"
  shows "0 \<le> double_mul r c \<and> double_mul r c < c"
proof -
  have nonneg: "0 \<le> double_mul r c"
    unfolding double_mul_def using lo n by (intro round_double_nonneg) simp
  have "double_mul r c < c"
  proof (cases "r = 0")
    case True
    then show ?thesis using n by (simp add: double_mul_def round_double_def)
  next
    case False
    then have p: "0 < r * c" using lo n by simp
    define P :: rat where "P = 2 ^ 53"
    have P: "0 < P" by (simp add: P_def)
    have r1: "r \<le> 1 - 1 / P" unfolding P_def using d hi by (rule double_below_one)
    have "r * c \<le> (1 - 1 / P) * c"
      using r1 n by (intro mult_right_mono) simp_all
    then have x: "r * c \<le> c - c / P" by (simp add: algebra_simps)
    have "0 < c / P" using n P by simp
    then have lt: "r * c < 2 ^ Suc j" using x cj by linarith
    have "double_mul r c \<le> r * c + 2 powi (int j - 53)"
      unfolding double_mul_def using p lt by (rule round_double_upper)
    moreover have "(2::rat) powi (int j - 53) = 2 ^ j / P"
      unfolding P_def by (rule two_powi_diff)
    moreover have "(2::rat) ^ j / P < c / P"
      using half P by (simp add: divide_strict_right_mono)
    ultimately show ?thesis using x by linarith
  qed
  then show ?thesis using nonneg by simp
qed

lemma chunks_draw_range:
  assumes "is_double r" and "0 \<le> r" and "r < 1"
  shows "0 \<le> \<lfloor>double_mul r 50\<rfloor> \<and> \<lfloor>double_mul r 50\<rfloor> \<le> 49"
proof -
  have "0 \<le> double_mul r 50 \<and> double_mul r 50 < 50"
    using assms by (rule scaled_draw_below[where j = 5]) simp_all
  then have "0 \<le> \<lfloor>double_mul r 50\<rfloor>" and "\<lfloor>double_mul r 50\<rfloor> < 50"
    by (simp_all add: floor_less_iff)
  then show ?thesis by simp
qed

lemma clauses_draw_range:
  assumes "is_double r" and "0 \<le> r" and "r < 1"
  shows "0 \<le> \<lfloor>double_mul r 20\<rfloor> \<and> \<lfloor>double_mul r 20\<rfloor> \<le> 19"
proof -
  have "0 \<le> double_mul r 20 \<and> double_mul r 20 < 20"
    using assms by (rule scaled_draw_below[where j = 4]) simp_all
  then have "0 \<le> \<lfloor>double_mul r 20\<rfloor>" and "\<lfloor>double_mul r 20\<rfloor> < 20"
    by (simp_all add: floor_less_iff)
  then show ?thesis by simp
qed

section \<open>Auxiliary facts\<close>

lemmas setters = setStoredDocuments_def setQueryHistory_def setCurrentResult_def
  setActiveTab_def setCurrentQuery_def setIsProcessing_def setSelectedDocument_def
  removeItem_def setItem_def toast_def

lemmas samples = initial_world_def initial_ui_def sample_world_def sample_document_def sample_record_def
  sample_query_def sample_runtime_def sample_file_def sample_upload_def sample_server_def
  sample_clock_def approved_text_def approved_value_def

lemma digit_char_cases:
  "n < 10 \<Longrightarrow> digit_char n \<in> set ''0123456789''"
  unfolding digit_char_def by (rule nth_mem) simp

lemma digit_char_inj:
  assumes "m < 10" "n < 10" "digit_char m = digit_char n"
  shows "m = n"
proof -
  have d: "distinct ''0123456789''" by simp
  have "m < length ''0123456789''" "n < length ''0123456789''" using assms by simp_all
  then show ?thesis using assms(3) d unfolding digit_char_def
    by (simp only: nth_eq_iff_index_eq)
qed

lemma dec_nonempty: "dec n \<noteq> []"
  by (subst dec.simps) simp

lemma dec_digits: "c \<in> set (dec n) \<Longrightarrow> c \<in> set ''0123456789''"
proof (induction n rule: dec.induct)
  case (1 n)
  show ?case
  proof (cases "n < 10")
    case True
    with "1.prems" have "c = digit_char n" by (subst (asm) dec.simps) simp
    then show ?thesis using digit_char_cases[OF True] by simp
  next
    case False
    with "1.prems" have "c \<in> set (dec (n div 10)) \<or> c = digit_char (n mod 10)"
      by (subst (asm) dec.simps) auto
    then show ?thesis
    proof
      assume "c \<in> set (dec (n div 10))"
      then show ?thesis using "1.IH"[OF False] by blast
    next
      assume "c = digit_char (n mod 10)"
      then show ?thesis using digit_char_cases[of "n mod 10"] by simp
    qed
  qed
qed

lemma dec_inj: "dec m = dec n \<Longrightarrow> m = n"
proof (induction m arbitrary: n rule: dec.induct)
  case (1 m)
  show ?case
  proof (cases "m < 10")
    case mT: True
    show ?thesis
    proof (cases "n < 10")
      case True
      from "1.prems" mT True have "digit_char m = digit_char n"
        by (subst (asm) dec.simps, subst (asm) (2) dec.simps) simp
      then show ?thesis using mT True by (rule digit_char_inj[rotated 2])
    next
      case False
      from "1.prems" mT False have "[digit_char m] = dec (n div 10) @ [digit_char (n mod 10)]"
        by (subst (asm) dec.simps, subst (asm) (2) dec.simps) simp
      then have "dec (n div 10) = []" by simp
      then show ?thesis using dec_nonempty by blast
    qed
  next
    case mF: False
    show ?thesis
    proof (cases "n < 10")
      case True
      from "1.prems" mF True have "dec (m div 10) @ [digit_char (m mod 10)] = [digit_char n]"
        by (subst (asm) dec.simps, subst (asm) (2) dec.simps) simp
      then have "dec (m div 10) = []" by simp
      then show ?thesis using dec_nonempty by blast
    next
      case False
      from "1.prems" mF False
      have "dec (m div 10) @ [digit_char (m mod 10)] = dec (n div 10) @ [digit_char (n mod 10)]"
        by (subst (asm) dec.simps, subst (asm) (2) dec.simps) simp
      then have a: "dec (m div 10) = dec (n div 10)" and b: "digit_char (m mod 10) = digit_char (n mod 10)"
        by simp_all
      from a have "m div 10 = n div 10" using "1.IH"[OF mF] by blast
      moreover from b have "m mod 10 = n mod 10" by (intro digit_char_inj) simp_all
      ultimately show ?thesis by (metis div_mult_mod_eq)
    qed
  qed
qed

lemma split_at_separator:
  assumes "c \<notin> set a" "c \<notin> set b" "a @ c # x = b @ c # y"
  shows "a = b \<and> x = y"
  using assms
proof (induction a arbitrary: b)
  case Nil
  then show ?case by (cases b) auto
next
  case (Cons h a)
  then show ?case by (cases b) auto
qed

lemma js_join_snoc:
  "xs \<noteq> [] \<Longrightarrow> js_join sep xs = concat (map (\<lambda>x. x @ sep) (butlast xs)) @ last xs"
  by (induction sep xs rule: js_join.induct) simp_all

lemma js_join_append_last:
  "xs \<noteq> [] \<Longrightarrow> js_join sep (xs @ [x]) = js_join sep xs @ sep @ x"
  by (induction sep xs rule: js_join.induct) simp_all

lemma dropWhile_all_iff: "(\<forall>x \<in> set (dropWhile P s). P x) \<longleftrightarrow> (\<forall>x \<in> set s. P x)"
proof
  assume a: "\<forall>x \<in> set (dropWhile P s). P x"
  have "dropWhile P s = []"
  proof (rule ccontr)
    assume n: "dropWhile P s \<noteq> []"
    then have "\<not> P (hd (dropWhile P s))" by (rule hd_dropWhile)
    moreover have "hd (dropWhile P s) \<in> set (dropWhile P s)" using n by simp
    ultimately show False using a by blast
  qed
  then show "\<forall>x \<in> set s. P x" by (simp add: dropWhile_eq_Nil_conv)
next
  assume "\<forall>x \<in> set s. P x"
  then show "\<forall>x \<in> set (dropWhile P s). P x" by (auto dest: set_dropWhileD)
qed

lemma js_trim_empty_iff: "js_trim s = [] \<longleftrightarrow> (\<forall>c \<in> set s. is_white c)"
  by (simp add: js_trim_def dropWhile_eq_Nil_conv dropWhile_all_iff)

lemma processDocument_fst:
  "fst (processDocument rt e file w) =
     (case extractTextFromFile file of
        None \<Rightarrow> None
      | Some content \<Rightarrow>
          Some \<lparr>d_id = ''doc_'' @ dec (u_id_now e) @ ''_'' @ substr (to_radix36 rt (u_id_random e)) 2 9,
                d_name = f_name file,
                d_content = content,
                chunks = \<lfloor>double_mul (u_chunks_random e) 50\<rfloor> + 20,
                clauses = \<lfloor>double_mul (u_clauses_random e) 20\<rfloor> + 5,
                d_size = formatFileSize rt (f_size file),
                processTime = toFixed1 rt (double_div (of_nat (u_done e) - of_nat (u_start e)) 1000) @ ''s'',
                status = Stored,
                uploadDate = toISOString rt (u_date e),
                d_type = (if f_type file \<noteq> [] then f_type file else ''text/plain'')\<rparr>)"
  unfolding processDocument_def Let_def by (cases "extractTextFromFile file") simp_all

lemma processDocument_Some:
  assumes "fst (processDocument rt e file w) = Some d"
  shows "d_id d = ''doc_'' @ dec (u_id_now e) @ ''_'' @ substr (to_radix36 rt (u_id_random e)) 2 9"
    and "chunks d = \<lfloor>double_mul (u_chunks_random e) 50\<rfloor> + 20"
    and "clauses d = \<lfloor>double_mul (u_clauses_random e) 20\<rfloor> + 5"
    and "d_name d = f_name file"
    and "\<exists>c. f_text file = Some c \<and> d_content d = (if c \<noteq> [] then c else ''['' @ f_type file @ ''] '' @ f_name file @ '' - Content extracted'')"
proof -
  obtain c where c: "f_text file = Some c"
    using assms by (cases "f_text file") (simp_all add: processDocument_fst extractTextFromFile_def)
  let ?content = "if c \<noteq> [] then c else ''['' @ f_type file @ ''] '' @ f_name file @ '' - Content extracted''"
  have x: "extractTextFromFile file = Some ?content"
    by (simp add: extractTextFromFile_def c)
  have d: "Some d = fst (processDocument rt e file w)" using assms by simp
  show "d_id d = ''doc_'' @ dec (u_id_now e) @ ''_'' @ substr (to_radix36 rt (u_id_random e)) 2 9"
    and "chunks d = \<lfloor>double_mul (u_chunks_random e) 50\<rfloor> + 20"
    and "clauses d = \<lfloor>double_mul (u_clauses_random e) 20\<rfloor> + 5"
    and "d_name d = f_name file"
    using d unfolding processDocument_fst x by simp_all
  have "d_content d = ?content"
    using d unfolding processDocument_fst x by simp
  then show "\<exists>c. f_text file = Some c \<and> d_content d = (if c \<noteq> [] then c else ''['' @ f_type file @ ''] '' @ f_name file @ '' - Content extracted'')"
    using c by blast
qed

lemma sample_products: "double_mul (1 / 2) 50 = 25" "double_mul (1 / 4) 20 = 5"
  by code_simp+

lemma sample_processDocument:
  "fst (processDocument sample_runtime sample_upload sample_file initial_world) = Some sample_document"
  by (simp add: processDocument_fst extractTextFromFile_def substr_def samples dec.simps digit_char_def
        sample_products)

section \<open>Removing one document\<close>

text \<open>
  Claim C10. For every stored document list and identifier, \<^verbatim>\<open>removeDocument\<close> leaves the
  list with exactly the documents of that identifier removed, the others in their order
  and unchanged, and it leaves the query history and the current result as they were.
\<close>

theorem removeDocument_filters:
  "storedDocuments (ui (removeDocument ident w))
     = filter (\<lambda>doc. d_id doc \<noteq> ident) (storedDocuments (ui w))
   \<and> queryHistory (ui (removeDocument ident w)) = queryHistory (ui w)
   \<and> currentResult (ui (removeDocument ident w)) = currentResult (ui w)"
  by (simp add: removeDocument_def setters)

theorem removeDocument_filters_witness:
  "storedDocuments (ui (removeDocument ''doc_0_i'' sample_world)) = []
   \<and> storedDocuments (ui (removeDocument ''doc_1_i'' sample_world)) = [sample_document]
   \<and> queryHistory (ui (removeDocument ''doc_0_i'' sample_world)) = [sample_record]
   \<and> currentResult (ui (removeDocument ''doc_0_i'' sample_world)) = None"
  using removeDocument_filters [of "''doc_0_i''" sample_world]
        removeDocument_filters [of "''doc_1_i''" sample_world]
  by (simp add: samples)

section \<open>Clearing all data\<close>

text \<open>
  Claim C6. After the bulk clear both lists in memory are empty. The handler removes both
  entries of the local store, but it also replaces both lists, so both persistence effects
  run after the next render and write the serialised empty lists back: both entries are
  present again. That render completes: it evaluates expressions on the records of the
  history and on the current result only, and the handler has left none.
\<close>

theorem clearAllData_entries_rewritten:
  "storedDocuments (ui (run_effects (clearAllData w))) = []
   \<and> queryHistory (ui (run_effects (clearAllData w))) = []
   \<and> localStorage (clearAllData w) ''llm-documents'' = None
   \<and> localStorage (clearAllData w) ''llm-history'' = None
   \<and> localStorage (run_effects (clearAllData w)) ''llm-documents'' = Some (Ser_documents [])
   \<and> localStorage (run_effects (clearAllData w)) ''llm-history'' = Some (Ser_history [])"
  by (simp add: run_effects_def clearAllData_def setters Let_def)

theorem clearAllData_entries_rewritten_witness:
  "localStorage (run_effects (clearAllData sample_world)) ''llm-documents'' \<noteq> None
   \<and> localStorage (run_effects (clearAllData sample_world)) ''llm-history'' \<noteq> None"
  using clearAllData_entries_rewritten [of sample_world] by simp

section \<open>Placeholder counters\<close>

lemma sample_draws:
  "is_double draw_024" "0 \<le> draw_024" "draw_024 < 1"
  "is_double draw_07" "0 \<le> draw_07" "draw_07 < 1"
  "\<lfloor>double_mul draw_024 50\<rfloor> = 12"
  "\<lfloor>double_mul draw_07 20\<rfloor> = 14"
  "\<lfloor>draw_024 * 50\<rfloor> = 11"
  by code_simp+

text \<open>
  Claim C9. For every uploaded file whose text can be read, ingestion produces a document
  record whose chunks count is an integer from 20 to 69 and whose clauses count is an
  integer from 5 to 24, for all draws that \<^verbatim>\<open>Math.random()\<close> can return (doubles that are
  at least 0 and less than 1), with the products rounded as doubles before
  \<^verbatim>\<open>Math.floor\<close>. Both counters depend on the draws only, not on the file.
\<close>

theorem placeholder_counters_range:
  assumes "f_text file \<noteq> None"
    and "is_double (u_chunks_random e)" and "0 \<le> u_chunks_random e" and "u_chunks_random e < 1"
    and "is_double (u_clauses_random e)" and "0 \<le> u_clauses_random e" and "u_clauses_random e < 1"
  shows "\<exists>d. fst (processDocument rt e file w) = Some d
           \<and> 20 \<le> chunks d \<and> chunks d \<le> 69 \<and> 5 \<le> clauses d \<and> clauses d \<le> 24
           \<and> (\<forall>file' w' d'. fst (processDocument rt e file' w') = Some d'
                 \<longrightarrow> chunks d' = chunks d \<and> clauses d' = clauses d)"
proof -
  obtain c where c: "f_text file = Some c" using assms(1) by blast
  obtain d where d: "fst (processDocument rt e file w) = Some d"
    by (simp add: processDocument_fst extractTextFromFile_def c)
  have ch: "chunks d = \<lfloor>double_mul (u_chunks_random e) 50\<rfloor> + 20"
    and cl: "clauses d = \<lfloor>double_mul (u_clauses_random e) 20\<rfloor> + 5"
    using processDocument_Some(2,3)[OF d] by simp_all
  have "0 \<le> \<lfloor>double_mul (u_chunks_random e) 50\<rfloor> \<and> \<lfloor>double_mul (u_chunks_random e) 50\<rfloor> \<le> 49"
    using assms(2,3,4) by (rule chunks_draw_range)
  moreover have "0 \<le> \<lfloor>double_mul (u_clauses_random e) 20\<rfloor> \<and> \<lfloor>double_mul (u_clauses_random e) 20\<rfloor> \<le> 19"
    using assms(5,6,7) by (rule clauses_draw_range)
  ultimately have r: "20 \<le> chunks d \<and> chunks d \<le> 69 \<and> 5 \<le> clauses d \<and> clauses d \<le> 24"
    using ch cl by simp
  have i: "\<forall>file' w' d'. fst (processDocument rt e file' w') = Some d'
               \<longrightarrow> chunks d' = chunks d \<and> clauses d' = clauses d"
  proof (intro allI impI)
    fix file' w' d'
    assume a: "fst (processDocument rt e file' w') = Some d'"
    show "chunks d' = chunks d \<and> clauses d' = clauses d"
      using processDocument_Some(2,3)[OF a] ch cl by simp
  qed
  show ?thesis using d r i by blast
qed

theorem placeholder_counters_range_witness:
  "f_text sample_file \<noteq> None
   \<and> is_double draw_024 \<and> 0 \<le> draw_024 \<and> draw_024 < 1
   \<and> is_double draw_07 \<and> 0 \<le> draw_07 \<and> draw_07 < 1
   \<and> map_option chunks (fst (processDocument sample_runtime
         (sample_upload\<lparr>u_chunks_random := draw_024, u_clauses_random := draw_07\<rparr>)
         sample_file initial_world)) = Some 32
   \<and> map_option clauses (fst (processDocument sample_runtime
         (sample_upload\<lparr>u_chunks_random := draw_024, u_clauses_random := draw_07\<rparr>)
         sample_file initial_world)) = Some 19"
proof -
  let ?e = "sample_upload\<lparr>u_chunks_random := draw_024, u_clauses_random := draw_07\<rparr>"
  have f: "f_text sample_file \<noteq> None" by (simp add: sample_file_def)
  have a: "is_double (u_chunks_random ?e)" "0 \<le> u_chunks_random ?e" "u_chunks_random ?e < 1"
    by (simp_all add: sample_draws)
  have b: "is_double (u_clauses_random ?e)" "0 \<le> u_clauses_random ?e" "u_clauses_random ?e < 1"
    by (simp_all add: sample_draws)
  obtain d where d: "fst (processDocument sample_runtime ?e sample_file initial_world) = Some d"
    using placeholder_counters_range [OF f a b, of sample_runtime initial_world] by blast
  have "chunks d = 32" "clauses d = 19"
    using processDocument_Some(2,3)[OF d] by (simp_all add: sample_draws)
  then show ?thesis using f d sample_draws by simp
qed

section \<open>Auxiliary facts on ingestion\<close>

lemma setUploadProgress_twice:
  "setUploadProgress f (setUploadProgress g w) = setUploadProgress (f \<circ> g) w"
  by (simp add: setUploadProgress_def)

lemma fold_setUploadProgress:
  "fold (\<lambda>i. setUploadProgress (g i)) xs w = setUploadProgress (fold g xs) w"
proof (induction xs arbitrary: w)
  case Nil
  show ?case by (simp add: setUploadProgress_def)
next
  case (Cons x xs)
  have "fold (\<lambda>i. setUploadProgress (g i)) (x # xs) w
          = fold (\<lambda>i. setUploadProgress (g i)) xs (setUploadProgress (g x) w)" by simp
  also have "\<dots> = setUploadProgress (fold g xs) (setUploadProgress (g x) w)" by (rule Cons.IH)
  also have "\<dots> = setUploadProgress (fold g xs \<circ> g x) w" by (rule setUploadProgress_twice)
  finally show ?case by (simp add: comp_def)
qed

lemma processDocument_snd:
  "\<exists>g. snd (processDocument rt e file w) = setUploadProgress g w"
proof (cases "extractTextFromFile file")
  case None
  then show ?thesis
    unfolding processDocument_def Let_def
    by (simp only: option.case snd_conv fold_setUploadProgress setUploadProgress_twice) blast
next
  case (Some c)
  then show ?thesis
    unfolding processDocument_def Let_def
    by (simp only: option.case snd_conv fold_setUploadProgress setUploadProgress_twice) blast
qed

lemma process_all_snd:
  "\<exists>g. snd (process_all rt files w) = setUploadProgress g w"
proof (induction files arbitrary: w)
  case Nil
  have "snd (process_all rt [] w) = setUploadProgress id w" by (simp add: setUploadProgress_def)
  then show ?case by blast
next
  case (Cons p files)
  obtain fl e where p: "p = (fl, e)" by (cases p)
  obtain g where g: "snd (processDocument rt e fl w) = setUploadProgress g w"
    using processDocument_snd by blast
  obtain h where h: "snd (process_all rt files (setUploadProgress g w)) = setUploadProgress h (setUploadProgress g w)"
    using Cons.IH by blast
  have "snd (process_all rt (p # files) w) = snd (process_all rt files (snd (processDocument rt e fl w)))"
    by (simp add: p split: prod.splits)
  then have "snd (process_all rt (p # files) w) = setUploadProgress (h \<circ> g) w"
    by (simp add: g h setUploadProgress_twice)
  then show ?case by blast
qed

lemma processDocument_fst_indep:
  "fst (processDocument rt e file w) = fst (processDocument rt e file w')"
  by (simp only: processDocument_fst)

lemma process_all_fst:
  "fst (process_all rt files w) = map (\<lambda>(file, e). fst (processDocument rt e file w0)) files"
proof (induction files arbitrary: w)
  case Nil
  show ?case by simp
next
  case (Cons p files)
  obtain fl e where p: "p = (fl, e)" by (cases p)
  have "fst (process_all rt (p # files) w)
          = fst (processDocument rt e fl w) # fst (process_all rt files (snd (processDocument rt e fl w)))"
    by (simp add: p split: prod.splits)
  then show ?case
    using Cons.IH processDocument_fst_indep[of rt e fl w w0] by (simp add: p)
qed

lemma handleFileUpload_documents:
  "storedDocuments (ui (handleFileUpload rt files w)) =
     (let rs = map (\<lambda>(file, e). fst (processDocument rt e file w)) files
      in if list_all (\<lambda>r. r \<noteq> None) rs then storedDocuments (ui w) @ map the rs
         else storedDocuments (ui w))"
proof -
  obtain g where g: "snd (process_all rt files w) = setUploadProgress g w"
    using process_all_snd by blast
  have f: "fst (process_all rt files w) = map (\<lambda>(file, e). fst (processDocument rt e file w)) files"
    by (rule process_all_fst)
  have "process_all rt files w = (map (\<lambda>(file, e). fst (processDocument rt e file w)) files, setUploadProgress g w)"
    using f g by (metis prod.collapse)
  then show ?thesis
    by (simp add: handleFileUpload_def Let_def setters setUploadProgress_def)
qed

lemma handleFileUpload_frame:
  "queryHistory (ui (handleFileUpload rt files w)) = queryHistory (ui w)"
  "currentQuery (ui (handleFileUpload rt files w)) = currentQuery (ui w)"
  "currentResult (ui (handleFileUpload rt files w)) = currentResult (ui w)"
  "requests (handleFileUpload rt files w) = requests w"
  "history_changed (handleFileUpload rt files w) = history_changed w"
  "localStorage (handleFileUpload rt files w) = localStorage w"
proof -
  obtain g where g: "snd (process_all rt files w) = setUploadProgress g w"
    using process_all_snd by blast
  obtain rs where "process_all rt files w = (rs, setUploadProgress g w)"
    using g by (metis prod.collapse)
  then show
    "queryHistory (ui (handleFileUpload rt files w)) = queryHistory (ui w)"
    "currentQuery (ui (handleFileUpload rt files w)) = currentQuery (ui w)"
    "currentResult (ui (handleFileUpload rt files w)) = currentResult (ui w)"
    "requests (handleFileUpload rt files w) = requests w"
    "history_changed (handleFileUpload rt files w) = history_changed w"
    "localStorage (handleFileUpload rt files w) = localStorage w"
    by (simp_all add: handleFileUpload_def Let_def setters setUploadProgress_def)
qed

lemma sample_processDocument_other:
  "fst (processDocument sample_runtime sample_upload (sample_file\<lparr>f_name := ''rider.txt''\<rparr>) initial_world)
     = Some (sample_document\<lparr>d_name := ''rider.txt''\<rparr>)"
  by (simp add: processDocument_fst extractTextFromFile_def substr_def samples dec.simps digit_char_def
        sample_products)

section \<open>Auxiliary facts on query dispatch and on the route\<close>

lemma parse_result_parsed:
  "get_prop data ''text'' = Inr (JStr t) \<Longrightarrow> JSON_parse rt t = Some v \<Longrightarrow> parse_result rt data = Inr v"
  by (simp add: parse_result_def)

lemma parse_result_fallback:
  "get_prop data ''text'' = Inr (JStr t) \<Longrightarrow> JSON_parse rt t = None
     \<Longrightarrow> parse_result rt data = Inr (fallback_result (JStr t))"
  by (simp add: parse_result_def)

lemma parse_result_passed:
  "get_prop data ''text'' = Inr t \<Longrightarrow> (\<forall>s. t \<noteq> JStr s) \<Longrightarrow> parse_result rt data = Inr t"
  by (cases t) (simp_all add: parse_result_def)

lemma parse_result_throws:
  "get_prop data ''text'' = Inl e \<Longrightarrow> parse_result rt data = Inl e"
  by (simp add: parse_result_def)

lemma parse_result_total:
  assumes "get_prop data ''text'' = Inr t"
  shows "\<exists>v. parse_result rt data = Inr v"
proof (cases "\<exists>s. t = JStr s")
  case True
  then obtain s where s: "t = JStr s" by blast
  show ?thesis
  proof (cases "JSON_parse rt s")
    case None
    then show ?thesis using assms s parse_result_fallback by blast
  next
    case (Some v)
    then show ?thesis using assms s parse_result_parsed by blast
  qed
next
  case False
  then show ?thesis using assms parse_result_passed by blast
qed

lemma get_prop_text_cases:
  "get_prop data ''text'' = Inl TypeError \<and> (data = JNull \<or> data = JUndefined)
   \<or> (\<exists>t. get_prop data ''text'' = Inr t \<and> data \<noteq> JNull \<and> data \<noteq> JUndefined)"
  by (cases data) (simp_all split: option.splits)

lemma try_body_requests:
  "requests (fst (try_body rt env q docs w)) = requests w @ [query_request q docs]"
  by (simp add: try_body_def Let_def setters split: fetch_outcome.splits option.splits sum.splits)

lemma processQuery_requests:
  assumes "js_trim (currentQuery (ui w)) \<noteq> []" and "storedDocuments (ui w) \<noteq> []"
  shows "requests (processQuery rt env w)
           = requests w @ [query_request (currentQuery (ui w)) (storedDocuments (ui w))]"
proof -
  obtain w1 thrown where t: "try_body rt env (currentQuery (ui w)) (storedDocuments (ui w))
                               (setIsProcessing True w) = (w1, thrown)"
    by (cases "try_body rt env (currentQuery (ui w)) (storedDocuments (ui w)) (setIsProcessing True w)")
  have "requests w1 = requests (setIsProcessing True w) @ [query_request (currentQuery (ui w)) (storedDocuments (ui w))]"
    using try_body_requests[of rt env "currentQuery (ui w)" "storedDocuments (ui w)" "setIsProcessing True w"] t
    by simp
  then show ?thesis
    using assms t by (simp add: processQuery_def Let_def setters split: option.splits)
qed

lemma try_body_ui:
  "ui (fst (try_body rt env q docs w)) =
     (case fetch env (query_request q docs) of
        Rejected \<Rightarrow> ui w
      | Response st parsed \<Rightarrow>
          (case parsed of
             None \<Rightarrow> ui w
           | Some data \<Rightarrow>
               if response_ok st then
                 (case parse_result rt data of
                    Inl e \<Rightarrow> ui w
                  | Inr v \<Rightarrow>
                      (ui w)\<lparr>queryHistory := queryResult_of rt env q v # queryHistory (ui w),
                             currentResult := Some (queryResult_of rt env q v),
                             activeTab := Tab_results,
                             currentQuery := []\<rparr>)
               else ui w))"
  by (simp add: try_body_def Let_def setters split: fetch_outcome.splits option.splits sum.splits)

lemma processQuery_ui:
  assumes "js_trim (currentQuery (ui w)) \<noteq> []" and "storedDocuments (ui w) \<noteq> []"
  shows "ui (processQuery rt env w) =
     (case fetch env (query_request (currentQuery (ui w)) (storedDocuments (ui w))) of
        Rejected \<Rightarrow> (ui w)\<lparr>isProcessing := False\<rparr>
      | Response st parsed \<Rightarrow>
          (case parsed of
             None \<Rightarrow> (ui w)\<lparr>isProcessing := False\<rparr>
           | Some data \<Rightarrow>
               if response_ok st then
                 (case parse_result rt data of
                    Inl e \<Rightarrow> (ui w)\<lparr>isProcessing := False\<rparr>
                  | Inr v \<Rightarrow>
                      (ui w)\<lparr>queryHistory := queryResult_of rt env (currentQuery (ui w)) v # queryHistory (ui w),
                             currentResult := Some (queryResult_of rt env (currentQuery (ui w)) v),
                             activeTab := Tab_results,
                             currentQuery := [],
                             isProcessing := False\<rparr>)
               else (ui w)\<lparr>isProcessing := False\<rparr>))"
proof -
  obtain w1 thrown where t: "try_body rt env (currentQuery (ui w)) (storedDocuments (ui w))
                               (setIsProcessing True w) = (w1, thrown)"
    by (cases "try_body rt env (currentQuery (ui w)) (storedDocuments (ui w)) (setIsProcessing True w)")
  have u: "ui (processQuery rt env w) = (ui w1)\<lparr>isProcessing := False\<rparr>"
    using assms t by (simp add: processQuery_def Let_def setters split: option.splits)
  have "ui w1 = ui (fst (try_body rt env (currentQuery (ui w)) (storedDocuments (ui w)) (setIsProcessing True w)))"
    using t by simp
  then show ?thesis
    unfolding u try_body_ui
    by (simp add: setIsProcessing_def split: fetch_outcome.splits option.splits sum.splits)
qed

lemma POST_text_status:
  "get_prop (json_body (response (POST rt senv b))) ''text'' = Inr (JStr t)
     \<Longrightarrow> status_code (response (POST rt senv b)) = 200"
  by (auto simp add: POST_def Let_def split: option.splits sum.splits if_splits prod.splits)

section \<open>Document identifiers\<close>

text \<open>
  Claim C8, as amended. The identifier of a document record is \<^verbatim>\<open>doc_\<close>, the clock reading
  in decimal, an underscore and at most nine characters of a random draw written in base
  36. Two records produced by ingestion have the same identifier exactly when they were
  given the same clock reading and the same random characters; they are distinct whenever
  one of the two differs. Nothing in the code excludes that both coincide.
\<close>

theorem document_ids_equal_iff:
  assumes "fst (processDocument rt e1 f1 w1) = Some d1"
    and "fst (processDocument rt e2 f2 w2) = Some d2"
  shows "d_id d1 = d_id d2 \<longleftrightarrow>
           (u_id_now e1 = u_id_now e2
            \<and> substr (to_radix36 rt (u_id_random e1)) 2 9 = substr (to_radix36 rt (u_id_random e2)) 2 9)"
proof -
  let ?s1 = "substr (to_radix36 rt (u_id_random e1)) 2 9"
  let ?s2 = "substr (to_radix36 rt (u_id_random e2)) 2 9"
  have i1: "d_id d1 = ''doc_'' @ dec (u_id_now e1) @ ''_'' @ ?s1"
    using assms(1) by (rule processDocument_Some(1))
  have i2: "d_id d2 = ''doc_'' @ dec (u_id_now e2) @ ''_'' @ ?s2"
    using assms(2) by (rule processDocument_Some(1))
  have nd: "\<And>n. CHR ''_'' \<notin> set (dec n)"
    using dec_digits by fastforce
  show ?thesis
  proof
    assume "d_id d1 = d_id d2"
    then have "dec (u_id_now e1) @ CHR ''_'' # ?s1 = dec (u_id_now e2) @ CHR ''_'' # ?s2"
      by (simp add: i1 i2)
    then have "dec (u_id_now e1) = dec (u_id_now e2) \<and> ?s1 = ?s2"
      using nd by (intro split_at_separator[where c = "CHR ''_''"]) simp_all
    then show "u_id_now e1 = u_id_now e2 \<and> ?s1 = ?s2"
      using dec_inj by blast
  next
    assume "u_id_now e1 = u_id_now e2 \<and> ?s1 = ?s2"
    then show "d_id d1 = d_id d2" by (simp add: i1 i2)
  qed
qed

theorem document_ids_equal_iff_witness:
  "fst (processDocument sample_runtime sample_upload sample_file initial_world) = Some sample_document
   \<and> fst (processDocument sample_runtime (sample_upload\<lparr>u_id_now := 1\<rparr>) sample_file initial_world)
        = Some (sample_document\<lparr>d_id := ''doc_1_i''\<rparr>)
   \<and> d_id sample_document \<noteq> d_id (sample_document\<lparr>d_id := ''doc_1_i''\<rparr>)
   \<and> u_id_now sample_upload \<noteq> u_id_now (sample_upload\<lparr>u_id_now := 1\<rparr>)"
proof -
  have a: "fst (processDocument sample_runtime (sample_upload\<lparr>u_id_now := 1\<rparr>) sample_file initial_world)
        = Some (sample_document\<lparr>d_id := ''doc_1_i''\<rparr>)"
    by (simp add: processDocument_fst extractTextFromFile_def substr_def samples dec.simps digit_char_def
        sample_products)
  show ?thesis
    using document_ids_equal_iff [OF sample_processDocument a] sample_processDocument a
    by (simp add: sample_upload_def)
qed

text \<open>
  Claim C8 as stated (identifiers pairwise distinct) fails: two files of one batch that
  read the same millisecond and draw the same random number get the same identifier.
\<close>

theorem document_ids_collide_counterexample:
  "\<not> distinct (map d_id (storedDocuments (ui (handleFileUpload sample_runtime
         [(sample_file, sample_upload), (sample_file\<lparr>f_name := ''rider.txt''\<rparr>, sample_upload)]
         initial_world))))"
proof -
  have e: "storedDocuments (ui initial_world) = []" by (simp add: initial_world_def initial_ui_def)
  have "storedDocuments (ui (handleFileUpload sample_runtime
         [(sample_file, sample_upload), (sample_file\<lparr>f_name := ''rider.txt''\<rparr>, sample_upload)]
         initial_world)) = [sample_document, sample_document\<lparr>d_name := ''rider.txt''\<rparr>]"
    by (simp add: handleFileUpload_documents sample_processDocument sample_processDocument_other e)
  then show ?thesis by simp
qed

section \<open>The guard of query dispatch\<close>

text \<open>
  Claim C4. When the query is empty or consists of white space only, or when no document
  is stored, \<^verbatim>\<open>processQuery\<close> sends no request and shows the destructive toast
  \<^verbatim>\<open>Invalid query\<close>; the world is otherwise unchanged, in particular the document
  list, the query history and the current result.
\<close>

theorem dispatch_refused:
  assumes "(\<forall>c \<in> set (currentQuery (ui w)). is_white c) \<or> storedDocuments (ui w) = []"
  shows "processQuery rt env w =
           w\<lparr>toasts := toasts w @
              [\<lparr>title = ''Invalid query'',
                description = ''Please enter a query and ensure documents are uploaded'',
                variant = Destructive\<rparr>]\<rparr>
         \<and> requests (processQuery rt env w) = requests w
         \<and> storedDocuments (ui (processQuery rt env w)) = storedDocuments (ui w)
         \<and> queryHistory (ui (processQuery rt env w)) = queryHistory (ui w)
         \<and> currentResult (ui (processQuery rt env w)) = currentResult (ui w)"
proof -
  have "js_trim (currentQuery (ui w)) = [] \<or> storedDocuments (ui w) = []"
    using assms by (simp add: js_trim_empty_iff)
  then have "processQuery rt env w =
           w\<lparr>toasts := toasts w @
              [\<lparr>title = ''Invalid query'',
                description = ''Please enter a query and ensure documents are uploaded'',
                variant = Destructive\<rparr>]\<rparr>"
    by (auto simp add: processQuery_def toast_def Let_def)
  then show ?thesis by simp
qed

theorem dispatch_refused_witness:
  "list_all is_white (currentQuery (ui (setCurrentQuery [CHR '' '', newline, CHR '' ''] sample_world)))
   \<and> requests (processQuery sample_runtime (sample_clock (\<lambda>r. Rejected))
                 (setCurrentQuery [CHR '' '', newline, CHR '' ''] sample_world)) = []
   \<and> map title (toasts (processQuery sample_runtime (sample_clock (\<lambda>r. Rejected))
                 (setCurrentQuery [CHR '' '', newline, CHR '' ''] sample_world))) = [''Invalid query'']
   \<and> queryHistory (ui (processQuery sample_runtime (sample_clock (\<lambda>r. Rejected))
                 (setCurrentQuery [CHR '' '', newline, CHR '' ''] sample_world))) = [sample_record]
   \<and> storedDocuments (ui (setCurrentQuery sample_query initial_world)) = []
   \<and> requests (processQuery sample_runtime (sample_clock (\<lambda>r. Rejected))
                 (setCurrentQuery sample_query initial_world)) = []
   \<and> map title (toasts (processQuery sample_runtime (sample_clock (\<lambda>r. Rejected))
                 (setCurrentQuery sample_query initial_world))) = [''Invalid query'']"
proof -
  have a: "(\<forall>c \<in> set (currentQuery (ui (setCurrentQuery [CHR '' '', newline, CHR '' ''] sample_world))). is_white c)
           \<or> storedDocuments (ui (setCurrentQuery [CHR '' '', newline, CHR '' ''] sample_world)) = []"
    by (simp add: setCurrentQuery_def is_white_def newline_def)
  have b: "(\<forall>c \<in> set (currentQuery (ui (setCurrentQuery sample_query initial_world))). is_white c)
           \<or> storedDocuments (ui (setCurrentQuery sample_query initial_world)) = []"
    by (simp add: setCurrentQuery_def initial_world_def initial_ui_def)
  show ?thesis
    using dispatch_refused [OF a, of sample_runtime "sample_clock (\<lambda>r. Rejected)"]
          dispatch_refused [OF b, of sample_runtime "sample_clock (\<lambda>r. Rejected)"]
    by (simp add: setCurrentQuery_def is_white_def newline_def samples)
qed

section \<open>The status codes of the route\<close>







section \<open>Auxiliary facts on the request and on the sample values\<close>

lemma documentsContent_blocks:
  assumes "docs \<noteq> []"
  shows "documentsContent docs =
           concat (map (\<lambda>doc. ''Document: '' @ d_name doc @ [newline] @ d_content doc @ [newline, newline])
                    (butlast docs))
           @ ''Document: '' @ d_name (last docs) @ [newline] @ d_content (last docs)"
proof -
  let ?block = "\<lambda>doc. ''Document: '' @ d_name doc @ [newline] @ d_content doc"
  have "map ?block docs \<noteq> []" using assms by simp
  then have "js_join [newline, newline] (map ?block docs)
               = concat (map (\<lambda>x. x @ [newline, newline]) (butlast (map ?block docs)))
                 @ last (map ?block docs)"
    by (rule js_join_snoc)
  then show ?thesis
    using assms by (simp add: documentsContent_def map_butlast last_map comp_def)
qed

lemma documentsContent_last:
  "\<exists>pre. documentsContent (docs @ [doc])
           = pre @ ''Document: '' @ d_name doc @ [newline] @ d_content doc"
  using documentsContent_blocks[of "docs @ [doc]"] by simp

lemma sample_upload_documents:
  "storedDocuments (ui (handleFileUpload sample_runtime [(sample_file, sample_upload)]
       (setCurrentQuery sample_query initial_world))) = [sample_document]"
proof -
  have "fst (processDocument sample_runtime sample_upload sample_file
          (setCurrentQuery sample_query initial_world)) = Some sample_document"
    using sample_processDocument processDocument_fst_indep by metis
  moreover have "storedDocuments (ui (setCurrentQuery sample_query initial_world)) = []"
    by (simp add: setCurrentQuery_def initial_world_def initial_ui_def)
  ultimately show ?thesis by (simp add: handleFileUpload_documents)
qed

lemma sample_world_fields:
  "currentQuery (ui sample_world) = sample_query"
  "storedDocuments (ui sample_world) = [sample_document]"
  "queryHistory (ui sample_world) = [sample_record]"
  "currentResult (ui sample_world) = None"
  "requests sample_world = []"
  "toasts sample_world = []"
  by (simp_all add: sample_world_def initial_world_def initial_ui_def)

lemma sample_query_not_white: "\<exists>c \<in> set sample_query. \<not> is_white c"
  by (simp add: sample_query_def is_white_def)

lemma sample_served:
  "served_by sample_runtime (sample_server answer) (query_request sample_query [sample_document])
     = (case answer of
          None \<Rightarrow> Response 500 (Some (JObj [(''error'', JStr ''Failed to process document. Please try again.'')]))
        | Some a \<Rightarrow> Response 200 (Some (JObj [(''text'', JStr a)])))"
  by (simp add: served_by_def POST_def build_prompt_def query_request_def documentsContent_def
        Let_def sample_server_def sample_query_def split: option.splits)

lemma run_effects_ui: "ui (run_effects w) = ui w"
  by (simp add: run_effects_def Let_def setItem_def)



section \<open>The request that is dispatched\<close>

text \<open>
  Claim C5. When the query has a character that is not white space and the document list
  is not empty, \<^verbatim>\<open>processQuery\<close> sends one POST request whose body is the object with the
  fields \<^verbatim>\<open>query\<close>, the query string as it is, and \<^verbatim>\<open>documents\<close>, the blocks
  \<^verbatim>\<open>Document: \<close> name, newline, content of the stored documents in list order, joined by
  two newlines. In particular, when the state is the one left by the upload of a file
  named \<^verbatim>\<open>policy.txt\<close>, the documents string contains \<^verbatim>\<open>Document: policy.txt\<close>, a
  newline, and then the text read from the file.
\<close>

theorem request_body_of_dispatch:
  assumes "\<exists>c \<in> set (currentQuery (ui w)). \<not> is_white c"
    and "storedDocuments (ui w) \<noteq> []"
  shows "requests (processQuery rt env w) = requests w @
           [\<lparr>req_url = ''/api/process-document'',
             req_method = ''POST'',
             req_headers = [(''Content-Type'', ''application/json'')],
             req_body = JObj
               [(''query'', JStr (currentQuery (ui w))),
                (''documents'', JStr
                   (concat (map (\<lambda>doc. ''Document: '' @ d_name doc @ [newline] @ d_content doc
                                        @ [newline, newline])
                              (butlast (storedDocuments (ui w))))
                    @ ''Document: '' @ d_name (last (storedDocuments (ui w))) @ [newline]
                    @ d_content (last (storedDocuments (ui w)))))]\<rparr>]
         \<and> (\<forall>w0 fl e c. w = handleFileUpload rt [(fl, e)] w0 \<and> f_name fl = ''policy.txt''
                \<and> f_text fl = Some c
              \<longrightarrow> (\<exists>D. req_body (last (requests (processQuery rt env w)))
                         = JObj [(''query'', JStr (currentQuery (ui w))), (''documents'', JStr D)]
                       \<and> sublist (''Document: policy.txt'' @ [newline] @ c) D))"
proof -
  have t: "js_trim (currentQuery (ui w)) \<noteq> []"
    using assms(1) by (simp add: js_trim_empty_iff)
  have r: "requests (processQuery rt env w)
             = requests w @ [query_request (currentQuery (ui w)) (storedDocuments (ui w))]"
    using t assms(2) by (rule processQuery_requests)
  have first: "requests (processQuery rt env w) = requests w @
           [\<lparr>req_url = ''/api/process-document'',
             req_method = ''POST'',
             req_headers = [(''Content-Type'', ''application/json'')],
             req_body = JObj
               [(''query'', JStr (currentQuery (ui w))),
                (''documents'', JStr
                   (concat (map (\<lambda>doc. ''Document: '' @ d_name doc @ [newline] @ d_content doc
                                        @ [newline, newline])
                              (butlast (storedDocuments (ui w))))
                    @ ''Document: '' @ d_name (last (storedDocuments (ui w))) @ [newline]
                    @ d_content (last (storedDocuments (ui w)))))]\<rparr>]"
    unfolding r query_request_def documentsContent_blocks[OF assms(2)] by simp
  have second: "\<exists>D. req_body (last (requests (processQuery rt env w)))
                         = JObj [(''query'', JStr (currentQuery (ui w))), (''documents'', JStr D)]
                       \<and> sublist (''Document: policy.txt'' @ [newline] @ c) D"
    if up: "w = handleFileUpload rt [(fl, e)] w0" and nm: "f_name fl = ''policy.txt''"
      and tx: "f_text fl = Some c" for w0 fl e c
  proof -
    let ?content = "if c \<noteq> [] then c else ''['' @ f_type fl @ ''] '' @ f_name fl @ '' - Content extracted''"
    have x: "extractTextFromFile fl = Some ?content"
      by (simp add: extractTextFromFile_def tx)
    obtain d where d: "fst (processDocument rt e fl w0) = Some d"
      by (simp add: processDocument_fst x)
    have dn: "d_name d = ''policy.txt''"
      using processDocument_Some(4)[OF d] nm by simp
    have dc: "d_content d = ?content"
      using processDocument_Some(5)[OF d] tx by simp
    have docs: "storedDocuments (ui w) = storedDocuments (ui w0) @ [d]"
      unfolding up by (simp add: handleFileUpload_documents d)
    obtain pre where pre: "documentsContent (storedDocuments (ui w))
                             = pre @ ''Document: '' @ d_name d @ [newline] @ d_content d"
      unfolding docs using documentsContent_last by blast
    have body: "req_body (last (requests (processQuery rt env w)))
                  = JObj [(''query'', JStr (currentQuery (ui w))),
                          (''documents'', JStr (documentsContent (storedDocuments (ui w))))]"
      unfolding r by (simp add: query_request_def)
    have "sublist (''Document: policy.txt'' @ [newline] @ c)
            (documentsContent (storedDocuments (ui w)))"
    proof (cases "c = []")
      case True
      have "documentsContent (storedDocuments (ui w))
              = pre @ (''Document: policy.txt'' @ [newline] @ c) @ d_content d"
        unfolding pre dn using True by simp
      then show ?thesis unfolding sublist_def by blast
    next
      case False
      then have "documentsContent (storedDocuments (ui w))
              = pre @ (''Document: policy.txt'' @ [newline] @ c) @ []"
        unfolding pre dn dc by simp
      then show ?thesis unfolding sublist_def by blast
    qed
    then show ?thesis using body by blast
  qed
  show ?thesis using first second by blast
qed

theorem request_body_of_dispatch_witness:
  "(\<exists>c \<in> set sample_query. \<not> is_white c)
   \<and> storedDocuments (ui (handleFileUpload sample_runtime [(sample_file, sample_upload)]
         (setCurrentQuery sample_query initial_world))) = [sample_document]
   \<and> map req_body (requests (processQuery sample_runtime (sample_clock (\<lambda>r. Rejected))
       (handleFileUpload sample_runtime [(sample_file, sample_upload)]
         (setCurrentQuery sample_query initial_world)))) =
       [JObj [(''query'', JStr ''46-year-old male, knee surgery, 3-month policy''),
              (''documents'', JStr (''Document: policy.txt'' @ [newline]
                                    @ ''Knee surgery covered after 2 years.''))]]"
proof -
  let ?w = "handleFileUpload sample_runtime [(sample_file, sample_upload)]
              (setCurrentQuery sample_query initial_world)"
  have q: "currentQuery (ui ?w) = sample_query"
    by (simp add: handleFileUpload_frame setCurrentQuery_def)
  have rq: "requests ?w = []"
    by (simp add: handleFileUpload_frame setCurrentQuery_def initial_world_def initial_ui_def)
  have a: "\<exists>c \<in> set (currentQuery (ui ?w)). \<not> is_white c"
    unfolding q by (simp add: sample_query_def is_white_def)
  have b: "storedDocuments (ui ?w) \<noteq> []"
    by (simp add: sample_upload_documents)
  show ?thesis
    using request_body_of_dispatch [OF a b, of sample_runtime "sample_clock (\<lambda>r. Rejected)"] a
    unfolding q rq sample_upload_documents
    by (simp add: sample_document_def sample_query_def)
qed

section \<open>The fallback result\<close>

lemma POST_ok_text:
  assumes "response_ok (status_code (response (POST rt senv b)))"
  shows "\<exists>t. json_body (response (POST rt senv b)) = JObj [(''text'', JStr t)]"
  using assms
  by (auto simp add: POST_def Let_def response_ok_def
        split: option.splits sum.splits if_splits prod.splits)

lemma served_ok_text:
  assumes "served_by rt senv rq = Response st (Some data)" and "response_ok st"
  shows "\<exists>t. get_prop data ''text'' = Inr (JStr t)"
proof -
  have s: "st = status_code (response (POST rt senv (Some (req_body rq))))"
    and d: "data = json_body (response (POST rt senv (Some (req_body rq))))"
    using assms(1) by (simp_all add: served_by_def Let_def)
  obtain t where "data = JObj [(''text'', JStr t)]"
    using POST_ok_text[of rt senv "Some (req_body rq)"] assms(2) s d by auto
  then show ?thesis by simp
qed

text \<open>
  Claim C1. For every response with a status from 200 to 299 whose text is not valid JSON,
  the record that is stored as the current result and put into the history carries exactly
  the fallback object: Decision \<^verbatim>\<open>Processed\<close>, Justification the returned text, or
  \<^verbatim>\<open>Query processed successfully\<close> when there is no text to show (the text is the empty
  string), an empty Clause_References list and Confidence 0.8. The text of such a response
  is a string: for an answer of the route this is derived, since the route sends status
  200 only together with the generated text.
\<close>

theorem fallback_on_unparsable_text:
  assumes "\<exists>c \<in> set (currentQuery (ui w)). \<not> is_white c"
    and "storedDocuments (ui w) \<noteq> []"
    and "fetch env (query_request (currentQuery (ui w)) (storedDocuments (ui w)))
           = Response st (Some data)"
    and "response_ok st"
    and "(\<exists>t. get_prop data ''text'' = Inr (JStr t))
         \<or> Response st (Some data)
             = served_by rt senv (query_request (currentQuery (ui w)) (storedDocuments (ui w)))"
  shows "\<exists>t. get_prop data ''text'' = Inr (JStr t)
           \<and> (JSON_parse rt t = None \<longrightarrow>
                (\<exists>r. currentResult (ui (processQuery rt env w)) = Some r
                    \<and> queryHistory (ui (processQuery rt env w)) = r # queryHistory (ui w)
                    \<and> result r =
                        JObj [(''Decision'', JStr ''Processed''),
                              (''Justification'',
                                 JStr (if t = [] then ''Query processed successfully'' else t)),
                              (''Clause_References'', JArr []),
                              (''Confidence'', JNum (8 / 10))]))"
proof -
  have g: "js_trim (currentQuery (ui w)) \<noteq> []"
    using assms(1) by (simp add: js_trim_empty_iff)
  obtain t where t: "get_prop data ''text'' = Inr (JStr t)"
    using assms(5)
  proof
    assume "\<exists>t. get_prop data ''text'' = Inr (JStr t)"
    then show ?thesis using that by blast
  next
    assume "Response st (Some data)
              = served_by rt senv (query_request (currentQuery (ui w)) (storedDocuments (ui w)))"
    then have "\<exists>t. get_prop data ''text'' = Inr (JStr t)"
      using served_ok_text[OF _ assms(4)] by metis
    then show ?thesis using that by blast
  qed
  have fb: "\<exists>r. currentResult (ui (processQuery rt env w)) = Some r
                    \<and> queryHistory (ui (processQuery rt env w)) = r # queryHistory (ui w)
                    \<and> result r =
                        JObj [(''Decision'', JStr ''Processed''),
                              (''Justification'',
                                 JStr (if t = [] then ''Query processed successfully'' else t)),
                              (''Clause_References'', JArr []),
                              (''Confidence'', JNum (8 / 10))]"
    if bad: "JSON_parse rt t = None"
  proof -
    have p: "parse_result rt data = Inr (fallback_result (JStr t))"
      using t bad by (rule parse_result_fallback)
    have u: "ui (processQuery rt env w) =
               (ui w)\<lparr>queryHistory := queryResult_of rt env (currentQuery (ui w)) (fallback_result (JStr t))
                                        # queryHistory (ui w),
                      currentResult := Some (queryResult_of rt env (currentQuery (ui w)) (fallback_result (JStr t))),
                      activeTab := Tab_results, currentQuery := [], isProcessing := False\<rparr>"
      unfolding processQuery_ui[OF g assms(2)] assms(3) using assms(4) p by simp
    have "result (queryResult_of rt env (currentQuery (ui w)) (fallback_result (JStr t))) =
            JObj [(''Decision'', JStr ''Processed''),
                  (''Justification'', JStr (if t = [] then ''Query processed successfully'' else t)),
                  (''Clause_References'', JArr []),
                  (''Confidence'', JNum (8 / 10))]"
      by (simp add: queryResult_of_def fallback_result_def js_or_def)
    then show ?thesis unfolding u by simp
  qed
  show ?thesis
  proof (rule exI[of _ t], rule conjI, rule t, rule impI)
    assume "JSON_parse rt t = None"
    then show "\<exists>r. currentResult (ui (processQuery rt env w)) = Some r
                    \<and> queryHistory (ui (processQuery rt env w)) = r # queryHistory (ui w)
                    \<and> result r =
                        JObj [(''Decision'', JStr ''Processed''),
                              (''Justification'',
                                 JStr (if t = [] then ''Query processed successfully'' else t)),
                              (''Clause_References'', JArr []),
                              (''Confidence'', JNum (8 / 10))]"
      by (rule fb)
  qed
qed

theorem fallback_on_unparsable_text_witness:
  "JSON_parse sample_runtime ''The policy covers it.'' = None
   \<and> JSON_parse sample_runtime [] = None
   \<and> map result (queryHistory (ui (processQuery sample_runtime
       (sample_clock (served_by sample_runtime (sample_server (Some ''The policy covers it.''))))
       sample_world))) =
     [JObj [(''Decision'', JStr ''Processed''), (''Justification'', JStr ''The policy covers it.''),
            (''Clause_References'', JArr []), (''Confidence'', JNum (8 / 10))],
      JObj [(''Decision'', JStr ''Rejected'')]]
   \<and> map result (queryHistory (ui (processQuery sample_runtime
       (sample_clock (served_by sample_runtime (sample_server (Some []))))
       sample_world))) =
     [JObj [(''Decision'', JStr ''Processed''), (''Justification'', JStr ''Query processed successfully''),
            (''Clause_References'', JArr []), (''Confidence'', JNum (8 / 10))],
      JObj [(''Decision'', JStr ''Rejected'')]]"
proof -
  have a: "\<exists>c \<in> set (currentQuery (ui sample_world)). \<not> is_white c"
    using sample_query_not_white by (simp add: sample_world_fields)
  have b: "storedDocuments (ui sample_world) \<noteq> []" by (simp add: sample_world_fields)
  have c: "fetch (sample_clock (served_by sample_runtime (sample_server (Some s))))
             (query_request (currentQuery (ui sample_world)) (storedDocuments (ui sample_world)))
           = Response 200 (Some (JObj [(''text'', JStr s)]))" for s
    by (simp add: sample_clock_def sample_world_fields sample_served)
  have d: "response_ok 200" by (simp add: response_ok_def)
  have e: "(\<exists>t. get_prop (JObj [(''text'', JStr s)]) ''text'' = Inr (JStr t))
           \<or> Response 200 (Some (JObj [(''text'', JStr s)]))
               = served_by sample_runtime (sample_server (Some s))
                   (query_request (currentQuery (ui sample_world)) (storedDocuments (ui sample_world)))" for s
    by (simp add: sample_world_fields sample_served)
  have f: "JSON_parse sample_runtime ''The policy covers it.'' = None"
          "JSON_parse sample_runtime [] = None"
    by (simp_all add: sample_runtime_def approved_text_def)
  show ?thesis
    using fallback_on_unparsable_text [OF a b c[of "''The policy covers it.''"] d
            e[of "''The policy covers it.''"]]
          fallback_on_unparsable_text [OF a b c[of "[]"] d e[of "[]"]] f
    by (auto simp add: sample_world_fields sample_record_def)
qed

section \<open>The parsed result\<close>

text \<open>
  Claim C2. For every response whose \<^verbatim>\<open>text\<close> is a string that \<^verbatim>\<open>JSON.parse\<close> accepts,
  with a status from 200 to 299 (which every answer of the route that carries a text has),
  the record that becomes the current result, and the head of the history, has as its
  result the very value that parsing returned, whatever that value is; the results tab is
  selected.
\<close>

theorem parsed_result_stored:
  assumes "\<exists>c \<in> set (currentQuery (ui w)). \<not> is_white c"
    and "storedDocuments (ui w) \<noteq> []"
    and "fetch env (query_request (currentQuery (ui w)) (storedDocuments (ui w)))
           = Response st (Some data)"
    and "response_ok st
         \<or> Response st (Some data)
             = served_by rt senv (query_request (currentQuery (ui w)) (storedDocuments (ui w)))"
    and "get_prop data ''text'' = Inr (JStr t)"
    and "JSON_parse rt t = Some v"
  shows "\<exists>r. currentResult (ui (processQuery rt env w)) = Some r
             \<and> queryHistory (ui (processQuery rt env w)) = r # queryHistory (ui w)
             \<and> result r = v
             \<and> activeTab (ui (processQuery rt env w)) = Tab_results"
proof -
  have g: "js_trim (currentQuery (ui w)) \<noteq> []"
    using assms(1) by (simp add: js_trim_empty_iff)
  have ok: "response_ok st"
    using assms(4)
  proof
    assume "response_ok st"
    then show ?thesis .
  next
    let ?b = "Some (req_body (query_request (currentQuery (ui w)) (storedDocuments (ui w))))"
    assume "Response st (Some data)
              = served_by rt senv (query_request (currentQuery (ui w)) (storedDocuments (ui w)))"
    then have s: "st = status_code (response (POST rt senv ?b))"
      and d: "data = json_body (response (POST rt senv ?b))"
      by (simp_all add: served_by_def Let_def)
    have "status_code (response (POST rt senv ?b)) = 200"
      using assms(5) unfolding d by (rule POST_text_status)
    then show ?thesis by (simp add: s response_ok_def)
  qed
  have p: "parse_result rt data = Inr v"
    using assms(5,6) by (rule parse_result_parsed)
  have u: "ui (processQuery rt env w) =
             (ui w)\<lparr>queryHistory := queryResult_of rt env (currentQuery (ui w)) v # queryHistory (ui w),
                    currentResult := Some (queryResult_of rt env (currentQuery (ui w)) v),
                    activeTab := Tab_results, currentQuery := [], isProcessing := False\<rparr>"
    unfolding processQuery_ui[OF g assms(2)] assms(3) using ok p by simp
  show ?thesis unfolding u by (simp add: queryResult_of_def)
qed

theorem parsed_result_stored_witness:
  "JSON_parse sample_runtime approved_text = Some approved_value
   \<and> map result (queryHistory (ui (processQuery sample_runtime
         (sample_clock (served_by sample_runtime (sample_server (Some approved_text))))
         sample_world))) = [approved_value, JObj [(''Decision'', JStr ''Rejected'')]]
   \<and> map_option result (currentResult (ui (processQuery sample_runtime
         (sample_clock (served_by sample_runtime (sample_server (Some approved_text))))
         sample_world))) = Some approved_value
   \<and> activeTab (ui (processQuery sample_runtime
         (sample_clock (served_by sample_runtime (sample_server (Some approved_text))))
         sample_world)) = Tab_results"
proof -
  let ?env = "sample_clock (served_by sample_runtime (sample_server (Some approved_text)))"
  have a: "\<exists>c \<in> set (currentQuery (ui sample_world)). \<not> is_white c"
    using sample_query_not_white by (simp add: sample_world_fields)
  have b: "storedDocuments (ui sample_world) \<noteq> []" by (simp add: sample_world_fields)
  have c: "fetch ?env (query_request (currentQuery (ui sample_world)) (storedDocuments (ui sample_world)))
           = Response 200 (Some (JObj [(''text'', JStr approved_text)]))"
    by (simp add: sample_clock_def sample_world_fields sample_served)
  have d: "response_ok 200
           \<or> Response 200 (Some (JObj [(''text'', JStr approved_text)]))
               = served_by sample_runtime (sample_server (Some approved_text))
                   (query_request (currentQuery (ui sample_world)) (storedDocuments (ui sample_world)))"
    by (simp add: sample_world_fields sample_served)
  have e: "get_prop (JObj [(''text'', JStr approved_text)]) ''text'' = Inr (JStr approved_text)"
    by simp
  have f: "JSON_parse sample_runtime approved_text = Some approved_value"
    by (simp add: sample_runtime_def)
  show ?thesis
    using parsed_result_stored [OF a b c d e f] f
    by (auto simp add: sample_world_fields sample_record_def)
qed

section \<open>The query history\<close>







end
